theory Spec2Isabelle
  imports Main "HOL-Library.Sublist" "HOL-Library.AList"
begin

section \<open>The backport reminder script (\<open>.github/scripts/remind-backport.js\<close>)\<close>

text \<open>
  The script scans the open issues carrying a label, and for every pull request among them
  that targets the configured branch and has carried the label long enough it posts a
  reminder comment, unless it already did so recently.  This theory is a shallow
  embedding of the script: every function of the source is a HOL function of the same
  name, the GitHub REST service is a parameter, and the claims of the specification are
  theorems about these functions.
\<close>

subsection \<open>JavaScript numbers and strings\<close>

text \<open>
  The numbers of the script are counts of milliseconds, counts of time units and the two
  thresholds read with \<open>parseInt\<close>.  They are integers, and far below \<open>2 ^ 53\<close> where the
  clock is concerned, so that the double-precision subtraction, division and
  \<open>Math.floor\<close> of the source agree with the integer operations here.  The only
  non-integer value that occurs is \<open>NaN\<close>, the result of \<open>parseInt\<close> on a string without
  digits.
\<close>

datatype jsnum = NaN | Num int

text \<open>The relational operator \<open><\<close> of JavaScript: a comparison with \<open>NaN\<close> is false.\<close>

fun less_num :: "jsnum \<Rightarrow> jsnum \<Rightarrow> bool" where
  "less_num (Num a) (Num b) = (a < b)"
| "less_num _ _ = False"

text \<open>
  Decimal notation of a natural number and of an integer, as a template literal prints
  them.  (From \<open>10 ^ 21\<close> on JavaScript prints an exponent; no age is that large.)
\<close>

definition digit_char :: "nat \<Rightarrow> char" where
  "digit_char d = char_of (48 + d)"

fun string_of_nat :: "nat \<Rightarrow> string" where
  "string_of_nat n =
     (if n < 10 then [digit_char n]
      else string_of_nat (n div 10) @ [digit_char (n mod 10)])"

declare string_of_nat.simps [simp del]

definition string_of_int :: "int \<Rightarrow> string" where
  "string_of_int i =
     (if i < 0 then CHR ''-'' # string_of_nat (nat (- i)) else string_of_nat (nat i))"

fun string_of_num :: "jsnum \<Rightarrow> string" where
  "string_of_num NaN = ''NaN''"
| "string_of_num (Num i) = string_of_int i"

text \<open>
  \<open>parseInt(s, 10)\<close>: leading white space is dropped, one sign is read, then the longest
  run of decimal digits; without a digit the result is \<open>NaN\<close>.  What follows the digits
  is ignored.  White space is what \<open>String.prototype.trimStart\<close> removes: the ASCII
  characters of \<open>is_space\<close>, and the other space characters and line terminators of
  Unicode, which are two or three bytes in a string of bytes (UTF-8).  A run of more
  digits than a double holds is rounded by JavaScript; the model keeps the integer, which
  compares in the same way with every age that can occur.
\<close>

definition is_space :: "char \<Rightarrow> bool" where
  "is_space c = (c \<in> set [CHR 0x09, CHR 0x0A, CHR 0x0B, CHR 0x0C, CHR 0x0D, CHR '' ''])"

definition wide_space :: "string \<Rightarrow> bool" where
  "wide_space cs =
     (cs \<in> set
        [[CHR 0xC2, CHR 0xA0], [CHR 0xE1, CHR 0x9A, CHR 0x80],
         [CHR 0xE2, CHR 0x80, CHR 0x80], [CHR 0xE2, CHR 0x80, CHR 0x81],
         [CHR 0xE2, CHR 0x80, CHR 0x82], [CHR 0xE2, CHR 0x80, CHR 0x83],
         [CHR 0xE2, CHR 0x80, CHR 0x84], [CHR 0xE2, CHR 0x80, CHR 0x85],
         [CHR 0xE2, CHR 0x80, CHR 0x86], [CHR 0xE2, CHR 0x80, CHR 0x87],
         [CHR 0xE2, CHR 0x80, CHR 0x88], [CHR 0xE2, CHR 0x80, CHR 0x89],
         [CHR 0xE2, CHR 0x80, CHR 0x8A], [CHR 0xE2, CHR 0x80, CHR 0xA8],
         [CHR 0xE2, CHR 0x80, CHR 0xA9], [CHR 0xE2, CHR 0x80, CHR 0xAF],
         [CHR 0xE2, CHR 0x81, CHR 0x9F], [CHR 0xE3, CHR 0x80, CHR 0x80],
         [CHR 0xEF, CHR 0xBB, CHR 0xBF]])"

fun trimStart :: "string \<Rightarrow> string" where
  "trimStart [] = []"
| "trimStart (c # s) =
     (if is_space c then trimStart s
      else if wide_space (c # take 1 s) then trimStart (drop 1 s)
      else if wide_space (c # take 2 s) then trimStart (drop 2 s)
      else c # s)"

definition is_digit :: "char \<Rightarrow> bool" where
  "is_digit c = (48 \<le> (of_char c :: nat) \<and> (of_char c :: nat) \<le> 57)"

definition digit_val :: "char \<Rightarrow> nat" where
  "digit_val c = of_char c - 48"

definition nat_of_digits :: "string \<Rightarrow> nat" where
  "nat_of_digits ds = foldl (\<lambda>acc c. 10 * acc + digit_val c) 0 ds"

definition parseInt :: "string \<Rightarrow> jsnum" where
  "parseInt s =
     (let t = trimStart s;
          sign = (case t of c # _ \<Rightarrow> if c = CHR ''-'' then - 1 else 1 | [] \<Rightarrow> (1::int));
          u = (case t of c # r \<Rightarrow> if c = CHR ''+'' \<or> c = CHR ''-'' then r else t | [] \<Rightarrow> t);
          z = takeWhile is_digit u
      in if z = [] then NaN else Num (sign * int (nat_of_digits z)))"

text \<open>\<open>haystack.includes(needle)\<close>: the needle occurs as a contiguous part.\<close>

fun str_includes :: "string \<Rightarrow> string \<Rightarrow> bool" where
  "str_includes [] needle = (needle = [])"
| "str_includes (c # s) needle = (prefix needle (c # s) \<or> str_includes s needle)"

text \<open>\<open>s.split(sep)\<close> for a separator of one character.\<close>

fun str_split :: "char \<Rightarrow> string \<Rightarrow> string list" where
  "str_split sep [] = [[]]"
| "str_split sep (c # s) =
     (if c = sep then [] # str_split sep s
      else (case str_split sep s of p # ps \<Rightarrow> (c # p) # ps | [] \<Rightarrow> [[c]]))"

text \<open>\<open>parts.join(sep)\<close>.\<close>

fun str_join :: "string \<Rightarrow> string list \<Rightarrow> string" where
  "str_join sep [] = []"
| "str_join sep [x] = x"
| "str_join sep (x # y # ys) = x @ sep @ str_join sep (y # ys)"

text \<open>
  \<open>daysBetween(a, b)\<close>: the whole number of units of five minutes from \<open>b\<close> to \<open>a\<close>,
  both in milliseconds.  The division of \<open>int\<close> rounds down, as \<open>Math.floor\<close> does.
\<close>

definition daysBetween :: "int \<Rightarrow> int \<Rightarrow> int" where
  "daysBetween a b = (a - b) div (1000 * 60 * 5)"

subsection \<open>Configuration\<close>

text \<open>
  The constants at the head of the script, read once from the environment.  A variable
  that is unset or empty takes its default (\<open>process.env.X || default\<close>).
\<close>

record env =
  env_GITHUB_TOKEN :: "string option"
  env_LABEL_NAME :: "string option"
  env_TARGET_BRANCH :: "string option"
  env_REMIND_AFTER_DAYS :: "string option"
  env_REMIND_EVERY_DAYS :: "string option"
  env_MARKER :: "string option"
  env_GITHUB_REPOSITORY :: "string option"

record config =
  TOKEN :: string
  LABEL_NAME :: string
  TARGET_BRANCH :: string
  AFTER_DAYS :: jsnum
  EVERY_DAYS :: jsnum
  MARKER :: string
  OWNER :: string
  REPO :: string

text \<open>\<open>x || d\<close> on an optional string: the empty string is falsy.\<close>

definition or_default :: "string option \<Rightarrow> string \<Rightarrow> string" where
  "or_default x d = (case x of None \<Rightarrow> d | Some v \<Rightarrow> if v = [] then d else v)"

text \<open>
  Lines 4 to 22.  The two \<open>process.exit(1)\<close> of the head of the script are the \<open>Inl\<close>
  results, with the message written to the error stream.
\<close>

definition load_config :: "env \<Rightarrow> string + config" where
  "load_config e =
     (let token = or_default (env_GITHUB_TOKEN e) [] in
      if token = [] then Inl ''Missing GITHUB_TOKEN''
      else
        let parts = str_split CHR ''/'' (or_default (env_GITHUB_REPOSITORY e) []);
            owner = (case parts of p # _ \<Rightarrow> p | [] \<Rightarrow> []);
            repo = (case parts of _ # r # _ \<Rightarrow> r | _ \<Rightarrow> [])
        in if owner = [] \<or> repo = [] then Inl ''Cannot parse OWNER/REPO from GITHUB_REPOSITORY''
           else Inr \<lparr>TOKEN = token,
                     LABEL_NAME = or_default (env_LABEL_NAME e) ''backport-pending'',
                     TARGET_BRANCH = or_default (env_TARGET_BRANCH e) ''master'',
                     AFTER_DAYS = parseInt (or_default (env_REMIND_AFTER_DAYS e) ''7''),
                     EVERY_DAYS = parseInt (or_default (env_REMIND_EVERY_DAYS e) ''7''),
                     MARKER = or_default (env_MARKER e) ''[backport-pending-reminder]'',
                     OWNER = owner, REPO = repo\<rparr>)"

subsection \<open>The objects of the GitHub REST interface\<close>

text \<open>
  Each record holds the fields the script reads.  A field read through \<open>?.\<close> is
  optional.  \<open>created_at\<close> is the time value of \<open>new Date(created_at)\<close>, in milliseconds
  since the epoch: GitHub sends ISO 8601 timestamps, which always parse.
\<close>

record account =
  user_login :: "string option"
  user_type :: "string option"

record issue =
  issue_number :: nat
  issue_pull_request :: bool  \<comment> \<open>the object has a truthy \<open>pull_request\<close> member\<close>
  issue_user :: "account option"

record base =
  base_ref :: string
  base_repo_owner_login :: string

record team =
  team_slug :: string

record pull =
  pull_base :: "base option"
  requested_reviewers :: "account list option"
  requested_teams :: "team list option"

record ievent =
  event_kind :: string  \<comment> \<open>the member \<open>event\<close>\<close>
  event_label_name :: "string option"
  event_created_at :: int

record comment =
  comment_user :: "account option"
  comment_body :: "string option"
  comment_created_at :: int

subsection \<open>Requests, responses and the world\<close>

datatype http_method = GET | POST

record request =
  req_method :: http_method
  req_url :: string
  req_query :: "(string \<times> string) list"
  req_headers :: "(string \<times> string) list"
  req_body :: "string option"

text \<open>
  What \<open>res.json()\<close> gives: a rejection when the body is not JSON, or the value.  The value
  of a list endpoint is an array of items or something else.
\<close>

datatype 'a parsed = Malformed | Json 'a

datatype 'i listing = NotArray | Array "'i list"

text \<open>
  A response: the status, the two rate-limit headers (\<open>res_reset\<close> is the number that
  \<open>Number\<close> reads from \<open>x-ratelimit-reset\<close>, which GitHub sends as a decimal count of
  seconds), the body as text and the body as JSON.
\<close>

record 'a response =
  res_status :: nat
  res_remaining :: "string option"
  res_reset :: "int option"
  res_text :: string
  res_json :: "'a parsed"

definition ok :: "'a response \<Rightarrow> bool" where
  "ok res = (200 \<le> res_status res \<and> res_status res \<le> 299)"

text \<open>
  The script's surroundings are a value of an arbitrary type \<open>'w\<close>, the world: the state
  of the remote service and the clock.  The operations on it are parameters: the clock
  (\<open>Date.now()\<close>), the passing of time (\<open>setTimeout\<close>), and \<open>fetch\<close>, once per type of
  payload.  A request that the network loses is outside the model: \<open>fetch\<close> always
  answers.
\<close>

record 'w sys =
  date_now :: "'w \<Rightarrow> int"
  set_timeout :: "int \<Rightarrow> 'w \<Rightarrow> 'w"
  fetch_issues :: "request \<Rightarrow> 'w \<Rightarrow> issue listing response \<times> 'w"
  fetch_pull :: "request \<Rightarrow> 'w \<Rightarrow> pull response \<times> 'w"
  fetch_events :: "request \<Rightarrow> 'w \<Rightarrow> ievent listing response \<times> 'w"
  fetch_comments :: "request \<Rightarrow> 'w \<Rightarrow> comment listing response \<times> 'w"
  fetch_created :: "request \<Rightarrow> 'w \<Rightarrow> unit response \<times> 'w"

text \<open>
  The lines written by \<open>console.log\<close> and \<open>console.error\<close>, one constructor for each
  template of the source, with the values it interpolates.
\<close>

datatype logline =
    LogRateLimited int  \<comment> \<open>\<open>Rate-limited. Sleeping ${waitMs}ms...\<close>\<close>
  | LogRepo string string
  | LogLabel string string
  | LogThreshold jsnum jsnum
  | LogBase nat "string option" string  \<comment> \<open>\<open>#n: base is ..., skipping (want ...).\<close>\<close>
  | LogNoLabeled nat  \<comment> \<open>\<open>#n: no labeled event found ..., skipping.\<close>\<close>
  | LogAge nat int jsnum  \<comment> \<open>\<open>#n: label age ...d < ...d, skipping.\<close>\<close>
  | LogReminded nat int jsnum  \<comment> \<open>\<open>#n: reminded ...d ago (< ...d), skipping.\<close>\<close>
  | LogPosted nat int  \<comment> \<open>\<open>#n: posted reminder (age ...d).\<close>\<close>
  | LogDone
  | LogError string

datatype event = Fetch request | Sleep int | Log logline

record 'w state =
  world :: 'w
  trace :: "event list"

definition log :: "logline \<Rightarrow> 'w state \<Rightarrow> 'w state" where
  "log l s = s\<lparr>trace := trace s @ [Log l]\<rparr>"

definition sleep :: "'w sys \<Rightarrow> int \<Rightarrow> 'w state \<Rightarrow> 'w state" where
  "sleep sys ms s = s\<lparr>world := set_timeout sys ms (world s), trace := trace s @ [Sleep ms]\<rparr>"

text \<open>The errors the script throws, with the values their messages carry.\<close>

datatype error =
    GetFailed string nat string  \<comment> \<open>\<open>GET ${path} failed: ${res.status} ${t}\<close>\<close>
  | GetPullFailed nat nat string  \<comment> \<open>\<open>GET pull ${pull_number} failed: ${res.status} ${t}\<close>\<close>
  | PostCommentFailed nat nat string  \<comment> \<open>\<open>POST comment on #${number} failed: ...\<close>\<close>
  | JsonSyntaxError  \<comment> \<open>thrown by \<open>res.json()\<close>\<close>

fun message :: "error \<Rightarrow> string" where
  "message (GetFailed path st t) =
     ''GET '' @ path @ '' failed: '' @ string_of_nat st @ '' '' @ t"
| "message (GetPullFailed n st t) =
     ''GET pull '' @ string_of_nat n @ '' failed: '' @ string_of_nat st @ '' '' @ t"
| "message (PostCommentFailed n st t) =
     ''POST comment on #'' @ string_of_nat n @ '' failed: '' @ string_of_nat st @ '' '' @ t"
| "message JsonSyntaxError = ''SyntaxError''"

subsection \<open>The API client\<close>

text \<open>
  \<open>api(path, opts)\<close>, lines 24 to 32.  The query string, which the source appends to the
  path, is kept apart as the list of its pairs.  The request is recorded in the trace.
\<close>

definition request_of ::
  "config \<Rightarrow> string \<Rightarrow> (string \<times> string) list \<Rightarrow> http_method \<Rightarrow> string option \<Rightarrow> request" where
  "request_of cfg path qp m b =
     \<lparr>req_method = m,
      req_url = ''https://api.github.com'' @ path,
      req_query = qp,
      req_headers = [(''Authorization'', ''Bearer '' @ TOKEN cfg),
                     (''Accept'', ''application/vnd.github+json''),
                     (''User-Agent'', ''backport-pending-reminder-script'')],
      req_body = b\<rparr>"

definition api ::
  "(request \<Rightarrow> 'w \<Rightarrow> 'a response \<times> 'w) \<Rightarrow> config \<Rightarrow> string \<Rightarrow> (string \<times> string) list \<Rightarrow>
   http_method \<Rightarrow> string option \<Rightarrow> 'w state \<Rightarrow> 'a response \<times> 'w state" where
  "api fetch cfg path qp m b s =
     (let req = request_of cfg path qp m b;
          (res, w) = fetch req (world s)
      in (res, s\<lparr>world := w, trace := trace s @ [Fetch req]\<rparr>))"

text \<open>
  The loop of \<open>paginate\<close>, lines 41 to 60, with the variables \<open>qp\<close>, \<open>page\<close> and \<open>results\<close>
  as arguments.  The loop has no bound: against a service that answers every request
  with a rate-limit signal or with a full page it runs forever, which is the value
  \<open>None\<close>.
\<close>

partial_function (option) paginate_loop ::
  "'w sys \<Rightarrow> (request \<Rightarrow> 'w \<Rightarrow> 'i listing response \<times> 'w) \<Rightarrow> config \<Rightarrow> string \<Rightarrow>
   (string \<times> string) list \<Rightarrow> nat \<Rightarrow> 'i list \<Rightarrow> 'w state \<Rightarrow> ((error + 'i list) \<times> 'w state) option"
where
  "paginate_loop sys fetch cfg path qp page results s =
     (let qp1 = AList.update ''page'' (string_of_nat page) qp;
          (res, s1) = api fetch cfg path qp1 GET None s
      in if res_status res = 403 \<and> res_remaining res = Some ''0'' then
           let reset = (case res_reset res of None \<Rightarrow> 0 | Some r \<Rightarrow> r) * 1000;
               waitMs = max 0 (reset - date_now sys (world s1)) + 1000;
               s2 = sleep sys waitMs (log (LogRateLimited waitMs) s1)
           in paginate_loop sys fetch cfg path qp1 page results s2
         else if \<not> ok res then Some (Inl (GetFailed path (res_status res) (res_text res)), s1)
         else case res_json res of
             Malformed \<Rightarrow> Some (Inl JsonSyntaxError, s1)
           | Json NotArray \<Rightarrow> Some (Inr results, s1)
           | Json (Array data) \<Rightarrow>
               if data = [] then Some (Inr results, s1)
               else if length data < 100 then Some (Inr (results @ data), s1)
               else paginate_loop sys fetch cfg path qp1 (page + 1) (results @ data) s1)"

text \<open>
  \<open>paginate(path, params)\<close>, lines 37 to 62: the query starts as \<open>per_page=100\<close>
  overridden and extended by \<open>params\<close>.
\<close>

definition query_params :: "(string \<times> string) list \<Rightarrow> (string \<times> string) list" where
  "query_params params = foldl (\<lambda>q (k, v). AList.update k v q) [(''per_page'', ''100'')] params"

definition paginate ::
  "'w sys \<Rightarrow> (request \<Rightarrow> 'w \<Rightarrow> 'i listing response \<times> 'w) \<Rightarrow> config \<Rightarrow> string \<Rightarrow>
   (string \<times> string) list \<Rightarrow> 'w state \<Rightarrow> ((error + 'i list) \<times> 'w state) option" where
  "paginate sys fetch cfg path params s =
     paginate_loop sys fetch cfg path (query_params params) 1 [] s"

text \<open>
  The request of the loop for page \<open>page\<close>, and the state after a request \<open>req\<close> that
  left the world as \<open>w\<close>.
\<close>

definition page_request :: "config \<Rightarrow> string \<Rightarrow> (string \<times> string) list \<Rightarrow> nat \<Rightarrow> request" where
  "page_request cfg path qp page =
     request_of cfg path (AList.update ''page'' (string_of_nat page) qp) GET None"

definition fetched :: "request \<Rightarrow> 'w \<Rightarrow> 'w state \<Rightarrow> 'w state" where
  "fetched req w s = s\<lparr>world := w, trace := trace s @ [Fetch req]\<rparr>"

definition repo_path :: "config \<Rightarrow> string" where
  "repo_path cfg = ''/repos/'' @ OWNER cfg @ ''/'' @ REPO cfg"

text \<open>The requests that \<open>getPull\<close> and \<open>createComment\<close> send.\<close>

definition pull_request :: "config \<Rightarrow> nat \<Rightarrow> request" where
  "pull_request cfg pull_number =
     request_of cfg (repo_path cfg @ ''/pulls/'' @ string_of_nat pull_number) [] GET None"

definition comment_request :: "config \<Rightarrow> nat \<Rightarrow> string \<Rightarrow> request" where
  "comment_request cfg number body =
     request_of cfg (repo_path cfg @ ''/issues/'' @ string_of_nat number @ ''/comments'') [] POST
       (Some body)"

definition listOpenIssuesWithLabel ::
  "'w sys \<Rightarrow> config \<Rightarrow> string \<Rightarrow> 'w state \<Rightarrow> ((error + issue list) \<times> 'w state) option" where
  "listOpenIssuesWithLabel sys cfg label s =
     paginate sys (fetch_issues sys) cfg (repo_path cfg @ ''/issues'')
       [(''state'', ''open''), (''labels'', label)] s"

definition getPull :: "'w sys \<Rightarrow> config \<Rightarrow> nat \<Rightarrow> 'w state \<Rightarrow> (error + pull) \<times> 'w state" where
  "getPull sys cfg pull_number s =
     (let (res, s1) =
            api (fetch_pull sys) cfg (repo_path cfg @ ''/pulls/'' @ string_of_nat pull_number)
              [] GET None s
      in if \<not> ok res then (Inl (GetPullFailed pull_number (res_status res) (res_text res)), s1)
         else case res_json res of
             Malformed \<Rightarrow> (Inl JsonSyntaxError, s1)
           | Json pr \<Rightarrow> (Inr pr, s1))"

definition listIssueEvents ::
  "'w sys \<Rightarrow> config \<Rightarrow> nat \<Rightarrow> 'w state \<Rightarrow> ((error + ievent list) \<times> 'w state) option" where
  "listIssueEvents sys cfg number s =
     paginate sys (fetch_events sys) cfg
       (repo_path cfg @ ''/issues/'' @ string_of_nat number @ ''/events'') [] s"

definition listComments ::
  "'w sys \<Rightarrow> config \<Rightarrow> nat \<Rightarrow> 'w state \<Rightarrow> ((error + comment list) \<times> 'w state) option" where
  "listComments sys cfg number s =
     paginate sys (fetch_comments sys) cfg
       (repo_path cfg @ ''/issues/'' @ string_of_nat number @ ''/comments'') [] s"

text \<open>
  \<open>createComment(number, body)\<close>, lines 83 to 90.  The request body is the text of the
  comment (the source wraps it as \<open>{"body": ...}\<close>); the created comment that the service
  returns is not looked at by the caller.
\<close>

definition createComment ::
  "'w sys \<Rightarrow> config \<Rightarrow> nat \<Rightarrow> string \<Rightarrow> 'w state \<Rightarrow> (error + unit) \<times> 'w state" where
  "createComment sys cfg number body s =
     (let (res, s1) =
            api (fetch_created sys) cfg
              (repo_path cfg @ ''/issues/'' @ string_of_nat number @ ''/comments'')
              [] POST (Some body) s
      in if \<not> ok res then (Inl (PostCommentFailed number (res_status res) (res_text res)), s1)
         else case res_json res of
             Malformed \<Rightarrow> (Inl JsonSyntaxError, s1)
           | Json c \<Rightarrow> (Inr c, s1))"

subsection \<open>The run\<close>

text \<open>The two filters of the loop body, lines 114 and 132 to 135.\<close>

definition is_labeled :: "config \<Rightarrow> ievent \<Rightarrow> bool" where
  "is_labeled cfg e = (event_kind e = ''labeled'' \<and> event_label_name e = Some (LABEL_NAME cfg))"

definition is_ours :: "config \<Rightarrow> comment \<Rightarrow> bool" where
  "is_ours cfg c =
     ((case comment_user c of
         None \<Rightarrow> False
       | Some u \<Rightarrow>
           user_type u = Some ''Bot'' \<or>
           (case user_login u of None \<Rightarrow> False | Some l \<Rightarrow> str_includes l ''github-actions'')) \<and>
      (case comment_body c of None \<Rightarrow> False | Some b \<Rightarrow> str_includes b (MARKER cfg)))"

text \<open>
  \<open>.sort((a, b) => new Date(b.created_at) - new Date(a.created_at))\<close>: the sort of an
  array is stable, and so is \<open>sort_key\<close>; the latest comes first.
\<close>

definition labeledEvents :: "config \<Rightarrow> ievent list \<Rightarrow> ievent list" where
  "labeledEvents cfg events = sort_key (\<lambda>e. - event_created_at e) (filter (is_labeled cfg) events)"

definition ourRecent :: "config \<Rightarrow> comment list \<Rightarrow> comment list" where
  "ourRecent cfg comments = sort_key (\<lambda>c. - comment_created_at c) (filter (is_ours cfg) comments)"

text \<open>
  The mentions, lines 148 to 151.  A reviewer without a login would be printed as
  \<open>@undefined\<close>.  \<open>pr.base\<close> is the object whose \<open>ref\<close> was compared with the target
  branch before.
\<close>

definition author :: "issue \<Rightarrow> string" where
  "author issue =
     (case issue_user issue of
        None \<Rightarrow> []
      | Some u \<Rightarrow> (case user_login u of None \<Rightarrow> [] | Some l \<Rightarrow> if l = [] then [] else ''@'' @ l))"

definition requestedUsers :: "pull \<Rightarrow> string list" where
  "requestedUsers pr =
     (case requested_reviewers pr of
        None \<Rightarrow> []
      | Some us \<Rightarrow> map (\<lambda>u. ''@'' @ (case user_login u of None \<Rightarrow> ''undefined'' | Some l \<Rightarrow> l)) us)"

definition requestedTeams :: "base \<Rightarrow> pull \<Rightarrow> string list" where
  "requestedTeams b pr =
     (case requested_teams pr of
        None \<Rightarrow> []
      | Some ts \<Rightarrow> map (\<lambda>t. ''@'' @ base_repo_owner_login b @ ''/'' @ team_slug t) ts)"

definition mention_list :: "issue \<Rightarrow> base \<Rightarrow> pull \<Rightarrow> string list" where
  "mention_list issue b pr =
     filter (\<lambda>m. m \<noteq> []) (author issue # requestedUsers pr @ requestedTeams b pr)"

definition mentions :: "issue \<Rightarrow> base \<Rightarrow> pull \<Rightarrow> string" where
  "mentions issue b pr = str_join '' '' (mention_list issue b pr)"

text \<open>The text of the reminder, lines 153 to 161.\<close>

definition reminder_body :: "config \<Rightarrow> string \<Rightarrow> int \<Rightarrow> string" where
  "reminder_body cfg ms ageDays =
     MARKER cfg @ [CHR 0x0A] @
     ms @ [CHR 0x0A] @
     [CHR 0x0A] @
     ''This pull request targets `'' @ TARGET_BRANCH cfg @ ''` and has the `'' @ LABEL_NAME cfg @
       ''` label for **'' @ string_of_int ageDays @ '' days**.'' @ [CHR 0x0A] @
     ''Please review next steps for backporting (or remove the label if no longer needed).'' @
       [CHR 0x0A] @
     [CHR 0x0A] @
     ''- Threshold: `'' @ string_of_num (AFTER_DAYS cfg) @ ''d`'' @ [CHR 0x0A] @
     ''- Re-reminder interval: `'' @ string_of_num (EVERY_DAYS cfg) @ ''d`'' @ [CHR 0x0A]"

text \<open>
  How one round of the loop ends: at one of the five \<open>continue\<close> statements, or after the
  comment is posted.  The source returns nothing from a round; the model returns this
  value next to the state, so that a theorem can name the exit taken.
\<close>

datatype outcome =
    NotPullRequest  \<comment> \<open>line 100\<close>
  | BaseMismatch "string option"  \<comment> \<open>line 108\<close>
  | NoLabeledEvent  \<comment> \<open>line 119\<close>
  | TooYoung int  \<comment> \<open>line 126, with \<open>ageDays\<close>\<close>
  | RecentlyReminded int  \<comment> \<open>line 143, with \<open>since\<close>\<close>
  | Reminded int string  \<comment> \<open>line 164, with \<open>ageDays\<close> and the text posted\<close>

text \<open>
  Lines 129 to 166 of the loop body: from the fetch of the comments on.  The test of lines
  138 to 145 gives \<open>since\<close> when the round ends there; lines 147 to 166 compose the
  reminder and post it.
\<close>

definition recently_reminded :: "config \<Rightarrow> int \<Rightarrow> comment list \<Rightarrow> int option" where
  "recently_reminded cfg now ours =
     (case ours of
        [] \<Rightarrow> None
      | c # _ \<Rightarrow>
          let lastAt = comment_created_at c;
              since = daysBetween now lastAt
          in if less_num (Num since) (EVERY_DAYS cfg) then Some since else None)"

definition post_reminder ::
  "'w sys \<Rightarrow> config \<Rightarrow> issue \<Rightarrow> base \<Rightarrow> pull \<Rightarrow> int \<Rightarrow> 'w state \<Rightarrow>
   ((error + outcome) \<times> 'w state) option" where
  "post_reminder sys cfg issue b pr ageDays s =
     (let number = issue_number issue;
          body = reminder_body cfg (mentions issue b pr) ageDays
      in case createComment sys cfg number body s of
           (Inl e, s1) \<Rightarrow> Some (Inl e, s1)
         | (Inr _, s1) \<Rightarrow>
             Some (Inr (Reminded ageDays body),
                   sleep sys 200 (log (LogPosted number ageDays) s1)))"

definition remind ::
  "'w sys \<Rightarrow> config \<Rightarrow> int \<Rightarrow> issue \<Rightarrow> base \<Rightarrow> pull \<Rightarrow> int \<Rightarrow> 'w state \<Rightarrow>
   ((error + outcome) \<times> 'w state) option" where
  "remind sys cfg now issue b pr ageDays s =
     (let number = issue_number issue in
      case listComments sys cfg number s of
        None \<Rightarrow> None
      | Some (Inl e, s1) \<Rightarrow> Some (Inl e, s1)
      | Some (Inr comments, s1) \<Rightarrow>
          (case recently_reminded cfg now (ourRecent cfg comments) of
             Some since \<Rightarrow>
               Some (Inr (RecentlyReminded since),
                     log (LogReminded number since (EVERY_DAYS cfg)) s1)
           | None \<Rightarrow> post_reminder sys cfg issue b pr ageDays s1))"

text \<open>The loop body, lines 100 to 166, for one issue.\<close>

definition process_issue ::
  "'w sys \<Rightarrow> config \<Rightarrow> int \<Rightarrow> issue \<Rightarrow> 'w state \<Rightarrow> ((error + outcome) \<times> 'w state) option" where
  "process_issue sys cfg now issue s =
     (if \<not> issue_pull_request issue then Some (Inr NotPullRequest, s)
      else
        let number = issue_number issue in
        case getPull sys cfg number s of
          (Inl e, s1) \<Rightarrow> Some (Inl e, s1)
        | (Inr pr, s1) \<Rightarrow>
            (case pull_base pr of
               None \<Rightarrow>
                 Some (Inr (BaseMismatch None), log (LogBase number None (TARGET_BRANCH cfg)) s1)
             | Some b \<Rightarrow>
                 if base_ref b \<noteq> TARGET_BRANCH cfg
                 then Some (Inr (BaseMismatch (Some (base_ref b))),
                            log (LogBase number (Some (base_ref b)) (TARGET_BRANCH cfg)) s1)
                 else
                   (case listIssueEvents sys cfg number s1 of
                      None \<Rightarrow> None
                    | Some (Inl e, s2) \<Rightarrow> Some (Inl e, s2)
                    | Some (Inr events, s2) \<Rightarrow>
                        (case labeledEvents cfg events of
                           [] \<Rightarrow> Some (Inr NoLabeledEvent, log (LogNoLabeled number) s2)
                         | ev # _ \<Rightarrow>
                             let labeledAt = event_created_at ev;
                                 ageDays = daysBetween now labeledAt
                             in if less_num (Num ageDays) (AFTER_DAYS cfg)
                                then Some (Inr (TooYoung ageDays),
                                           log (LogAge number ageDays (AFTER_DAYS cfg)) s2)
                                else remind sys cfg now issue b pr ageDays s2))))"

text \<open>
  The \<open>for\<close> loop of \<open>run\<close>: an error thrown in a round ends the loop, as nothing catches
  it there.
\<close>

fun for_issues ::
  "'w sys \<Rightarrow> config \<Rightarrow> int \<Rightarrow> issue list \<Rightarrow> 'w state \<Rightarrow>
   ((error + outcome list) \<times> 'w state) option" where
  "for_issues sys cfg now [] s = Some (Inr [], s)"
| "for_issues sys cfg now (issue # issues) s =
     (case process_issue sys cfg now issue s of
        None \<Rightarrow> None
      | Some (Inl e, s1) \<Rightarrow> Some (Inl e, s1)
      | Some (Inr oc, s1) \<Rightarrow>
          (case for_issues sys cfg now issues s1 of
             None \<Rightarrow> None
           | Some (Inl e, s2) \<Rightarrow> Some (Inl e, s2)
           | Some (Inr ocs, s2) \<Rightarrow> Some (Inr (oc # ocs), s2)))"

text \<open>\<open>run()\<close>, lines 92 to 170.\<close>

definition run ::
  "'w sys \<Rightarrow> config \<Rightarrow> 'w state \<Rightarrow> ((error + outcome list) \<times> 'w state) option" where
  "run sys cfg s =
     (let now = date_now sys (world s);
          s1 = log (LogThreshold (AFTER_DAYS cfg) (EVERY_DAYS cfg))
                 (log (LogLabel (LABEL_NAME cfg) (TARGET_BRANCH cfg))
                    (log (LogRepo (OWNER cfg) (REPO cfg)) s))
      in case listOpenIssuesWithLabel sys cfg (LABEL_NAME cfg) s1 of
           None \<Rightarrow> None
         | Some (Inl e, s2) \<Rightarrow> Some (Inl e, s2)
         | Some (Inr issues, s2) \<Rightarrow>
             (case for_issues sys cfg now issues s2 of
                None \<Rightarrow> None
              | Some (Inl e, s3) \<Rightarrow> Some (Inl e, s3)
              | Some (Inr ocs, s3) \<Rightarrow> Some (Inr ocs, log LogDone s3)))"

text \<open>
  The whole script: the configuration is read, \<open>run\<close> is called, and an error that comes
  out of it is printed and turned into the exit status 1 (lines 172 to 175).  The result
  is the exit status with the final state.
\<close>

definition main :: "'w sys \<Rightarrow> env \<Rightarrow> 'w \<Rightarrow> (nat \<times> 'w state) option" where
  "main sys e w =
     (let s = \<lparr>world = w, trace = []\<rparr> in
      case load_config e of
        Inl msg \<Rightarrow> Some (1, log (LogError msg) s)
      | Inr cfg \<Rightarrow>
          (case run sys cfg s of
             None \<Rightarrow> None
           | Some (Inl err, s1) \<Rightarrow> Some (1, log (LogError (message err)) s1)
           | Some (Inr _, s1) \<Rightarrow> Some (0, s1)))"

text \<open>The comments posted in a trace: the \<open>POST\<close> requests, in order.\<close>

definition posted :: "event list \<Rightarrow> request list" where
  "posted tr =
     concat (map (\<lambda>ev. case ev of
                         Fetch req \<Rightarrow> if req_method req = POST then [req] else []
                       | _ \<Rightarrow> []) tr)"

text \<open>
  The entries that are mentioned: the login of the author, the logins of the requested
  reviewers, and the requested teams, each under the owner of the repository.
\<close>

definition mention_sources :: "issue \<Rightarrow> base \<Rightarrow> pull \<Rightarrow> string list" where
  "mention_sources issue b pr =
     (case issue_user issue of
        None \<Rightarrow> []
      | Some u \<Rightarrow> (case user_login u of None \<Rightarrow> [] | Some l \<Rightarrow> if l = [] then [] else [l])) @
     (case requested_reviewers pr of
        None \<Rightarrow> []
      | Some us \<Rightarrow> map (\<lambda>u. case user_login u of None \<Rightarrow> ''undefined'' | Some l \<Rightarrow> l) us) @
     (case requested_teams pr of
        None \<Rightarrow> []
      | Some ts \<Rightarrow> map (\<lambda>t. base_repo_owner_login b @ ''/'' @ team_slug t) ts)"

subsection \<open>A simulated service\<close>

text \<open>
  Worlds and services to run the script against.  The world is a clock and a script for
  the endpoints behind the rate limit, which says for each request to come whether the
  answer is the rate-limit signal; a timer of \<open>ms\<close> milliseconds advances the clock by
  \<open>ms\<close>.
\<close>

record sim =
  sim_clock :: int
  sim_script :: "bool list"

definition query_nat :: "request \<Rightarrow> string \<Rightarrow> nat \<Rightarrow> nat" where
  "query_nat req k d = (case map_of (req_query req) k of None \<Rightarrow> d | Some v \<Rightarrow> nat_of_digits v)"

definition respond :: "nat \<Rightarrow> string \<Rightarrow> 'a parsed \<Rightarrow> 'a response" where
  "respond st t j =
     \<lparr>res_status = st, res_remaining = None, res_reset = None, res_text = t, res_json = j\<rparr>"

text \<open>The rate-limit signal: status 403, no quota left, and the time of the reset.\<close>

definition rate_limit_signal :: "int \<Rightarrow> 'a response" where
  "rate_limit_signal r =
     \<lparr>res_status = 403, res_remaining = Some ''0'', res_reset = Some r,
      res_text = ''API rate limit exceeded'', res_json = Malformed\<rparr>"

text \<open>
  A list endpoint that answers the request for page \<open>p\<close> with \<open>pg p\<close>.  Without a
  \<open>page\<close> in the query the page is the first.
\<close>

definition serve_pages :: "(nat \<Rightarrow> 'i listing) \<Rightarrow> request \<Rightarrow> 'w \<Rightarrow> 'i listing response \<times> 'w" where
  "serve_pages pg req w = (respond 200 [] (Json (pg (query_nat req ''page'' 1))), w)"

text \<open>
  A list endpoint over the items \<open>xs\<close>: page \<open>p\<close> holds the items from position
  \<open>(p - 1) * per_page\<close> on, \<open>per_page\<close> of them at most, and 30 when the query does not
  say.
\<close>

definition slice :: "nat \<Rightarrow> 'i list \<Rightarrow> nat \<Rightarrow> 'i list" where
  "slice per xs p = take per (drop ((p - 1) * per) xs)"

definition serve_list :: "'i list \<Rightarrow> request \<Rightarrow> 'w \<Rightarrow> 'i listing response \<times> 'w" where
  "serve_list xs req w =
     serve_pages (\<lambda>p. Array (slice (query_nat req ''per_page'' 30) xs p)) req w"

text \<open>An endpoint that answers with one value, and one that fails.\<close>

definition serve_value :: "nat \<Rightarrow> 'a \<Rightarrow> request \<Rightarrow> 'w \<Rightarrow> 'a response \<times> 'w" where
  "serve_value st v req w = (respond st [] (Json v), w)"

definition serve_failure :: "nat \<Rightarrow> string \<Rightarrow> request \<Rightarrow> 'w \<Rightarrow> 'a response \<times> 'w" where
  "serve_failure st t req w = (respond st t Malformed, w)"

text \<open>
  An endpoint behind the rate limit: it takes the next entry of the script, and answers
  with the rate-limit signal, the reset lying \<open>ahead\<close> seconds after the current second,
  if the entry says so; otherwise, and when the script has run out, it answers as \<open>fetch\<close>
  does.
\<close>

definition throttled ::
  "int \<Rightarrow> (request \<Rightarrow> sim \<Rightarrow> 'a response \<times> sim) \<Rightarrow> request \<Rightarrow> sim \<Rightarrow> 'a response \<times> sim" where
  "throttled ahead fetch req w =
     (case sim_script w of
        [] \<Rightarrow> fetch req w
      | limited # script \<Rightarrow>
          if limited
          then (rate_limit_signal (sim_clock w div 1000 + ahead), w\<lparr>sim_script := script\<rparr>)
          else fetch req (w\<lparr>sim_script := script\<rparr>))"

definition sim_sys ::
  "issue list \<Rightarrow> pull \<Rightarrow> ievent list \<Rightarrow> comment list \<Rightarrow> sim sys" where
  "sim_sys issues pr events comments =
     \<lparr>date_now = sim_clock,
      set_timeout = (\<lambda>ms w. w\<lparr>sim_clock := sim_clock w + ms\<rparr>),
      fetch_issues = serve_list issues,
      fetch_pull = serve_value 200 pr,
      fetch_events = serve_list events,
      fetch_comments = serve_list comments,
      fetch_created = serve_value 201 ()\<rparr>"

text \<open>
  A list endpoint that answers the request for the first page with the items \<open>xs\<close> and
  the request for any other page with a failure.
\<close>

definition serve_then_fail ::
  "'i list \<Rightarrow> nat \<Rightarrow> string \<Rightarrow> request \<Rightarrow> 'w \<Rightarrow> 'i listing response \<times> 'w" where
  "serve_then_fail xs st t req w =
     (if query_nat req ''page'' 1 = 1 then serve_pages (\<lambda>p. Array xs) req w
      else serve_failure st t req w)"


subsection \<open>An example repository\<close>

definition demo_cfg :: config where
  "demo_cfg =
     \<lparr>TOKEN = ''secret'', LABEL_NAME = ''backport-pending'', TARGET_BRANCH = ''master'',
      AFTER_DAYS = Num 7, EVERY_DAYS = Num 7, MARKER = ''[backport-pending-reminder]'',
      OWNER = ''elastic'', REPO = ''rally-tracks''\<rparr>"

definition demo_pull :: pull where
  "demo_pull =
     \<lparr>pull_base = Some \<lparr>base_ref = ''master'', base_repo_owner_login = ''elastic''\<rparr>,
      requested_reviewers = Some [\<lparr>user_login = Some ''bob'', user_type = Some ''User''\<rparr>],
      requested_teams = Some [\<lparr>team_slug = ''perf''\<rparr>]\<rparr>"

definition demo_start :: "sim state" where
  "demo_start = \<lparr>world = \<lparr>sim_clock = 6000000, sim_script = []\<rparr>, trace = []\<rparr>"

definition demo_issue :: issue where
  "demo_issue =
     \<lparr>issue_number = 42, issue_pull_request = True,
      issue_user = Some \<lparr>user_login = Some ''alice'', user_type = Some ''User''\<rparr>\<rparr>"

definition demo_labeled :: "int \<Rightarrow> ievent" where
  "demo_labeled t =
     \<lparr>event_kind = ''labeled'', event_label_name = Some ''backport-pending'', event_created_at = t\<rparr>"

definition demo_reminder :: "int \<Rightarrow> comment" where
  "demo_reminder t =
     \<lparr>comment_user = Some \<lparr>user_login = Some ''github-actions[bot]'', user_type = Some ''Bot''\<rparr>,
      comment_body = Some ''[backport-pending-reminder] @alice please backport'',
      comment_created_at = t\<rparr>"

definition demo_assigned :: ievent where
  "demo_assigned = \<lparr>event_kind = ''assigned'', event_label_name = None, event_created_at = 5999000\<rparr>"

definition demo_chat :: comment where
  "demo_chat =
     \<lparr>comment_user = Some \<lparr>user_login = Some ''bob'', user_type = Some ''User''\<rparr>,
      comment_body = Some ''Looks good to me'', comment_created_at = 5900000\<rparr>"

definition demo_env :: env where
  "demo_env =
     \<lparr>env_GITHUB_TOKEN = Some ''secret'', env_LABEL_NAME = None, env_TARGET_BRANCH = None,
      env_REMIND_AFTER_DAYS = None, env_REMIND_EVERY_DAYS = None, env_MARKER = None,
      env_GITHUB_REPOSITORY = Some ''elastic/rally-tracks''\<rparr>"

text \<open>
  The example repository with two labelled pull requests, 42 and 43, and a comments
  endpoint that is out of order.
\<close>

definition broken_sys :: "sim sys" where
  "broken_sys =
     (sim_sys [demo_issue, demo_issue\<lparr>issue_number := 43\<rparr>] demo_pull [demo_labeled 3000000] [])
       \<lparr>fetch_comments := serve_failure 500 ''boom''\<rparr>"

text \<open>A pull request on which the same reviewer is requested twice.\<close>

definition twice_pull :: pull where
  "twice_pull =
     demo_pull\<lparr>requested_reviewers :=
       Some [\<lparr>user_login = Some ''bob'', user_type = Some ''User''\<rparr>,
             \<lparr>user_login = Some ''bob'', user_type = Some ''User''\<rparr>]\<rparr>"

text \<open>
  The example repository behind a rate limit: the endpoints for the pull request, for the
  events and for new comments follow the script, the reset one minute ahead.
\<close>

definition throttled_sys :: "sim sys" where
  "throttled_sys =
     (sim_sys [demo_issue] demo_pull [demo_labeled 3000000] [])
       \<lparr>fetch_pull := throttled 60 (serve_value 200 demo_pull),
        fetch_events := throttled 60 (serve_list [demo_labeled 3000000]),
        fetch_created := throttled 60 (serve_value 201 ())\<rparr>"

definition throttled_start :: "sim state" where
  "throttled_start = \<lparr>world = \<lparr>sim_clock = 6000000, sim_script = [True]\<rparr>, trace = []\<rparr>"

section \<open>Properties\<close>

subsection \<open>Decimal notation\<close>

lemma digit_val_digit_char: "d < 10 \<Longrightarrow> digit_val (digit_char d) = d"
  by (simp add: digit_val_def digit_char_def)

lemma nat_of_digits_snoc: "nat_of_digits (ds @ [c]) = 10 * nat_of_digits ds + digit_val c"
  by (simp add: nat_of_digits_def)

lemma nat_of_digits_string_of_nat: "nat_of_digits (string_of_nat n) = n"
proof (induction n rule: string_of_nat.induct)
  case (1 n)
  show ?case
  proof (cases "n < 10")
    case True
    then show ?thesis
      by (subst string_of_nat.simps) (simp add: nat_of_digits_def digit_val_digit_char)
  next
    case False
    with 1 have "nat_of_digits (string_of_nat (n div 10)) = n div 10" by simp
    with False show ?thesis
      by (subst string_of_nat.simps) (simp add: nat_of_digits_snoc digit_val_digit_char)
  qed
qed

lemma parseInt_examples:
  "parseInt ''7'' = Num 7" "parseInt [] = NaN" "parseInt ''soon'' = NaN"
  by (simp_all add: parseInt_def is_space_def wide_space_def is_digit_def nat_of_digits_def
      digit_val_def)

subsection \<open>One round of the loop of \<open>paginate\<close>\<close>

lemma api_fetched:
  "fetch (request_of cfg path qp m b) (world s) = (res, w) \<Longrightarrow>
   api fetch cfg path qp m b s = (res, fetched (request_of cfg path qp m b) w s)"
  by (simp add: api_def fetched_def)

lemma trace_fetched: "trace (fetched req w s) = trace s @ [Fetch req]"
  by (simp add: fetched_def)

lemma world_fetched: "world (fetched req w s) = w"
  by (simp add: fetched_def)

lemma ok_not_403: "ok res \<Longrightarrow> res_status res \<noteq> 403"
  by (simp add: ok_def)

lemma respond_simps:
  "res_status (respond st t j) = st" "res_remaining (respond st t j) = None"
  "res_text (respond st t j) = t" "res_json (respond st t j) = j"
  "ok (respond st t j) = (200 \<le> st \<and> st \<le> 299)"
  by (simp_all add: respond_def ok_def)

text \<open>
  The equation of the loop, with the answer to the request of the round named: \<open>res\<close> is
  the response and \<open>w\<close> the world after it.
\<close>

lemma paginate_loop_unfold:
  assumes "fetch (page_request cfg path qp page) (world s) = (res, w)"
  shows "paginate_loop sys fetch cfg path qp page results s =
     (let qp1 = AList.update ''page'' (string_of_nat page) qp;
          s1 = fetched (page_request cfg path qp page) w s
      in if res_status res = 403 \<and> res_remaining res = Some ''0'' then
           let reset = (case res_reset res of None \<Rightarrow> 0 | Some r \<Rightarrow> r) * 1000;
               waitMs = max 0 (reset - date_now sys w) + 1000;
               s2 = sleep sys waitMs (log (LogRateLimited waitMs) s1)
           in paginate_loop sys fetch cfg path qp1 page results s2
         else if \<not> ok res then Some (Inl (GetFailed path (res_status res) (res_text res)), s1)
         else case res_json res of
             Malformed \<Rightarrow> Some (Inl JsonSyntaxError, s1)
           | Json NotArray \<Rightarrow> Some (Inr results, s1)
           | Json (Array data) \<Rightarrow>
               if data = [] then Some (Inr results, s1)
               else if length data < 100 then Some (Inr (results @ data), s1)
               else paginate_loop sys fetch cfg path qp1 (page + 1) (results @ data) s1)"
proof -
  have a: "api fetch cfg path (AList.update ''page'' (string_of_nat page) qp) GET None s =
      (res, fetched (page_request cfg path qp page) w s)"
    using assms by (simp add: api_fetched page_request_def)
  show ?thesis
    by (subst paginate_loop.simps) (simp add: a world_fetched Let_def)
qed

lemma page_request_update:
  "page_request cfg path (AList.update ''page'' v qp) p = page_request cfg path qp p"
  by (simp add: page_request_def AList.update_last)

lemma query_nat_page_request: "query_nat (page_request cfg path qp p) ''page'' d = p"
  by (simp add: query_nat_def page_request_def request_of_def AList.update_conv'
      nat_of_digits_string_of_nat)

lemma serve_pages_page_request:
  "serve_pages pg (page_request cfg path qp p) w = (respond 200 [] (Json (pg p)), w)"
  by (simp add: serve_pages_def query_nat_page_request)

subsection \<open>Pages in sequence\<close>

text \<open>
  Against an endpoint that answers the request for page \<open>p\<close> with the array \<open>pg p\<close>, the
  loop started at \<open>page\<close> runs up to the first page \<open>k\<close> of fewer than 100 items.  The
  endpoint need answer so only in the worlds of an invariant \<open>I\<close> that its answers keep.
\<close>

lemma paginate_loop_pages:
  assumes srv: "\<And>p w. I w \<Longrightarrow> ok (fst (fetch (page_request cfg path qp p) w)) \<and>
        res_json (fst (fetch (page_request cfg path qp p) w)) = Json (Array (pg p)) \<and>
        I (snd (fetch (page_request cfg path qp p) w))"
    and "I (world s)"
    and "page \<le> k" "\<forall>p. page \<le> p \<and> p < k \<longrightarrow> 100 \<le> length (pg p)" "length (pg k) < 100"
  shows "\<exists>s'. paginate_loop sys fetch cfg path qp page results s =
        Some (Inr (results @ concat (map pg [page..<Suc k])), s') \<and>
      trace s' = trace s @ map (\<lambda>p. Fetch (page_request cfg path qp p)) [page..<Suc k]"
  using assms
proof (induction "k - page" arbitrary: page results s qp)
  case 0
  then have pk: "page = k" by simp
  obtain res w where f: "fetch (page_request cfg path qp page) (world s) = (res, w)"
    by (cases "fetch (page_request cfg path qp page) (world s)")
  from "0.prems"(1) [OF "0.prems"(2), of page] f
  have r: "ok res" "res_json res = Json (Array (pg page))" by simp_all
  show ?case
    using "0.prems"(5) pk r ok_not_403 [OF r(1)]
    by (subst paginate_loop_unfold [where fetch = fetch and res = res, OF f])
      (simp add: trace_fetched Let_def)
next
  case (Suc n)
  then have lt: "page < k" and full: "100 \<le> length (pg page)" by auto
  obtain res w where f: "fetch (page_request cfg path qp page) (world s) = (res, w)"
    by (cases "fetch (page_request cfg path qp page) (world s)")
  from Suc.prems(1) [OF Suc.prems(2), of page] f
  have r: "ok res" "res_json res = Json (Array (pg page))" "I w" by simp_all
  let ?qp1 = "AList.update ''page'' (string_of_nat page) qp"
  let ?s1 = "fetched (page_request cfg path qp page) w s"
  have step: "paginate_loop sys fetch cfg path qp page results s =
      paginate_loop sys fetch cfg path ?qp1 (page + 1) (results @ pg page) ?s1"
    using full r ok_not_403 [OF r(1)]
    by (subst paginate_loop_unfold [where fetch = fetch and res = res, OF f])
      (auto simp add: Let_def)
  have srv1: "\<And>p w. I w \<Longrightarrow> ok (fst (fetch (page_request cfg path ?qp1 p) w)) \<and>
        res_json (fst (fetch (page_request cfg path ?qp1 p) w)) = Json (Array (pg p)) \<and>
        I (snd (fetch (page_request cfg path ?qp1 p) w))"
    using Suc.prems(1) by (simp add: page_request_update)
  have i1: "I (world ?s1)"
    using r(3) by (simp add: world_fetched)
  have "\<exists>s'. paginate_loop sys fetch cfg path ?qp1 (page + 1) (results @ pg page) ?s1 =
        Some (Inr ((results @ pg page) @ concat (map pg [page + 1..<Suc k])), s') \<and>
      trace s' = trace ?s1 @ map (\<lambda>p. Fetch (page_request cfg path ?qp1 p)) [page + 1..<Suc k]"
    using Suc.prems(3-5) Suc.hyps(2) lt by (intro Suc.hyps(1) srv1 i1) auto
  then obtain s' where ih:
    "paginate_loop sys fetch cfg path ?qp1 (page + 1) (results @ pg page) ?s1 =
        Some (Inr ((results @ pg page) @ concat (map pg [page + 1..<Suc k])), s')"
    "trace s' = trace ?s1 @ map (\<lambda>p. Fetch (page_request cfg path ?qp1 p)) [page + 1..<Suc k]"
    by blast
  have upt: "[page..<Suc k] = page # [page + 1..<Suc k]"
    using lt by (simp add: upt_conv_Cons)
  show ?case
    unfolding step ih(1) upt using ih(2) by (simp add: page_request_update trace_fetched)
qed

lemma concat_slices: "concat (map (slice per xs) [1..<Suc k]) = take (k * per) xs"
proof (induction k)
  case 0
  show ?case by simp
next
  case (Suc k)
  have "concat (map (slice per xs) [1..<Suc (Suc k)]) =
      concat (map (slice per xs) [1..<Suc k]) @ slice per xs (Suc k)"
    by simp
  also have "\<dots> = take (k * per) xs @ take per (drop (k * per) xs)"
    by (simp only: Suc.IH) (simp add: slice_def)
  also have "\<dots> = take (k * per + per) xs"
    by (simp only: take_add)
  also have "k * per + per = Suc k * per"
    by simp
  finally show ?case .
qed

lemma per_page_query_params:
  assumes "''per_page'' \<notin> fst ` set params"
  shows "map_of (query_params params) ''per_page'' = Some ''100''"
proof -
  have "map_of q ''per_page'' = Some ''100'' \<Longrightarrow> ''per_page'' \<notin> fst ` set ps \<Longrightarrow>
      map_of (foldl (\<lambda>q (k, v). AList.update k v q) q ps) ''per_page'' = Some ''100''" for q ps
  proof (induction ps arbitrary: q)
    case Nil
    then show ?case by simp
  next
    case (Cons kv ps)
    obtain k v where kv: "kv = (k, v)" by (cases kv)
    from Cons.prems(2) kv have "k \<noteq> ''per_page''" by auto
    with Cons.prems(1) have "map_of (AList.update k v q) ''per_page'' = Some ''100''"
      by (simp add: AList.update_conv')
    with Cons.IH [of "AList.update k v q"] Cons.prems(2) kv show ?case by simp
  qed
  with assms show ?thesis
    by (simp add: query_params_def)
qed

lemma per_page_page_request:
  "map_of (req_query (page_request cfg path qp p)) ''per_page'' = map_of qp ''per_page''"
  by (simp add: page_request_def request_of_def AList.update_conv')

text \<open>
  Claim C4.  Let a list endpoint answer every request for a page \<open>p\<close> with success and
  the array \<open>pg p\<close>, and let \<open>k\<close> be the first page of fewer than 100 items (an empty page
  is one).  Then \<open>paginate\<close> returns the items of the pages 1 to \<open>k\<close>, joined in this order,
  after requesting exactly these pages, the first being page 1; and unless the caller's
  parameters say otherwise, every request asks for 100 items per page.
\<close>

theorem paginate_concatenates_pages:
  assumes "\<forall>p w. ok (fst (fetch (page_request cfg path (query_params params) p) w)) \<and>
        res_json (fst (fetch (page_request cfg path (query_params params) p) w)) = Json (Array (pg p))"
    and "1 \<le> k" and "\<forall>p. 1 \<le> p \<and> p < k \<longrightarrow> 100 \<le> length (pg p)" and "length (pg k) < 100"
  shows "(\<exists>s'. paginate sys fetch cfg path params s = Some (Inr (concat (map pg [1..<Suc k])), s') \<and>
        trace s' =
          trace s @ map (\<lambda>p. Fetch (page_request cfg path (query_params params) p)) [1..<Suc k]) \<and>
      (''per_page'' \<notin> fst ` set params \<longrightarrow>
        (\<forall>p. map_of (req_query (page_request cfg path (query_params params) p)) ''per_page'' =
          Some ''100''))"
proof
  show "\<exists>s'. paginate sys fetch cfg path params s = Some (Inr (concat (map pg [1..<Suc k])), s') \<and>
        trace s' =
          trace s @ map (\<lambda>p. Fetch (page_request cfg path (query_params params) p)) [1..<Suc k]"
    unfolding paginate_def
    using paginate_loop_pages [where I = "\<lambda>w. True" and fetch = fetch and cfg = cfg and path = path
        and qp = "query_params params" and pg = pg and page = 1 and k = k and results = "[]"
        and sys = sys and s = s] assms
    by simp
  show "''per_page'' \<notin> fst ` set params \<longrightarrow>
        (\<forall>p. map_of (req_query (page_request cfg path (query_params params) p)) ''per_page'' =
          Some ''100'')"
    by (simp add: per_page_page_request per_page_query_params)
qed

text \<open>
  The case of the specification: 250 items delivered as pages of 100, 100 and 50 come back
  as the same 250 items in the same order, after requests for the pages 1, 2 and 3 with
  100 items per page.
\<close>

theorem paginate_250_items:
  "(\<exists>s'. paginate (sim_sys [] demo_pull [] []) (serve_pages (\<lambda>p. Array (slice 100 [0..<250] p)))
          demo_cfg ''/numbers'' [] demo_start = Some (Inr [0..<250], s') \<and>
        trace s' =
          map (\<lambda>p. Fetch (page_request demo_cfg ''/numbers'' (query_params []) p)) [1, 2, 3]) \<and>
   map (\<lambda>p. req_query (page_request demo_cfg ''/numbers'' (query_params []) p)) [1, 2, 3] =
     [[(''per_page'', ''100''), (''page'', ''1'')],
      [(''per_page'', ''100''), (''page'', ''2'')],
      [(''per_page'', ''100''), (''page'', ''3'')]]"
proof
  let ?fetch = "serve_pages (\<lambda>p. Array (slice 100 [0..<250] p)) :: request \<Rightarrow> sim \<Rightarrow> _"
  have h1: "\<forall>p w. ok (fst (?fetch (page_request demo_cfg ''/numbers'' (query_params []) p) w)) \<and>
      res_json (fst (?fetch (page_request demo_cfg ''/numbers'' (query_params []) p) w)) =
        Json (Array (slice 100 [0..<250] p))"
    by (simp add: serve_pages_page_request respond_simps)
  have h2: "(1::nat) \<le> 3" by simp
  have h3: "\<forall>p. 1 \<le> p \<and> p < 3 \<longrightarrow> 100 \<le> length (slice 100 [0..<250] p)"
    by (auto simp add: slice_def)
  have h4: "length (slice 100 [0..<250] 3) < 100"
    by (simp add: slice_def)
  have r: "concat (map (slice 100 [0..<250]) [1..<Suc 3]) = [0..<250]"
    by (simp only: concat_slices) simp
  have u: "[Suc 0..<4] = [Suc 0, 2, 3]"
    by (simp add: upt_rec)
  have e: "trace demo_start = []"
    by (simp add: demo_start_def)
  note t = paginate_concatenates_pages [OF h1 h2 h3 h4, of "sim_sys [] demo_pull [] []" demo_start]
  from t [unfolded r]
  show "\<exists>s'. paginate (sim_sys [] demo_pull [] []) (serve_pages (\<lambda>p. Array (slice 100 [0..<250] p)))
          demo_cfg ''/numbers'' [] demo_start = Some (Inr [0..<250], s') \<and>
        trace s' =
          map (\<lambda>p. Fetch (page_request demo_cfg ''/numbers'' (query_params []) p)) [1, 2, 3]"
    by (simp add: u e)
next
  have d: "string_of_nat (Suc 0) = ''1''" "string_of_nat 2 = ''2''" "string_of_nat 3 = ''3''"
    by code_simp+
  show "map (\<lambda>p. req_query (page_request demo_cfg ''/numbers'' (query_params []) p)) [1, 2, 3] =
     [[(''per_page'', ''100''), (''page'', ''1'')],
      [(''per_page'', ''100''), (''page'', ''2'')],
      [(''per_page'', ''100''), (''page'', ''3'')]]"
    by (simp add: page_request_def request_of_def query_params_def d)
qed

text \<open>
  Claim C10.  When the request for a page succeeds and its body is JSON that is not an
  array, the loop ends there without an error, and what \<open>paginate\<close> returns is \<open>results\<close>,
  the items of the pages before.
\<close>

theorem paginate_stops_at_non_array:
  assumes "fetch (page_request cfg path qp page) (world s) = (res, w)"
    and "ok res" and "res_json res = Json NotArray"
  shows "paginate_loop sys fetch cfg path qp page results s =
      Some (Inr results, fetched (page_request cfg path qp page) w s)"
  using assms(2,3) ok_not_403 [OF assms(2)]
  by (subst paginate_loop_unfold [where fetch = fetch and res = res, OF assms(1)]) simp

text \<open>
  A non-array in place of page 2, after three items were gathered; and a first page of 100
  items followed by a non-array, which gives the 100 items.
\<close>

theorem paginate_stops_at_non_array_example:
  "paginate_loop (sim_sys [] demo_pull [] []) (serve_pages (\<lambda>p. NotArray)) demo_cfg ''/numbers''
     (query_params []) 2 [1, 2, 3 :: nat] demo_start =
   Some (Inr [1, 2, 3],
         fetched (page_request demo_cfg ''/numbers'' (query_params []) 2) (world demo_start)
           demo_start) \<and>
   (\<exists>s'. paginate (sim_sys [] demo_pull [] [])
       (serve_pages (\<lambda>p. if p = 1 then Array (replicate 100 (7 :: nat)) else NotArray))
       demo_cfg ''/numbers'' [] demo_start = Some (Inr (replicate 100 7), s'))"
proof
  show "paginate_loop (sim_sys [] demo_pull [] []) (serve_pages (\<lambda>p. NotArray)) demo_cfg ''/numbers''
     (query_params []) 2 [1, 2, 3 :: nat] demo_start =
   Some (Inr [1, 2, 3],
         fetched (page_request demo_cfg ''/numbers'' (query_params []) 2) (world demo_start)
           demo_start)"
    using paginate_stops_at_non_array
      [where fetch = "serve_pages (\<lambda>p. NotArray)" and res = "respond 200 [] (Json NotArray)"
        and s = demo_start and w = "world demo_start" and results = "[1, 2, 3 :: nat]" and page = 2
        and cfg = demo_cfg and path = "''/numbers''" and qp = "query_params []"
        and sys = "sim_sys [] demo_pull [] []"]
    by (simp add: serve_pages_page_request respond_simps)
next
  let ?sys = "sim_sys [] demo_pull [] []"
  let ?fetch = "serve_pages (\<lambda>p. if p = 1 then Array (replicate 100 (7 :: nat)) else NotArray)
    :: request \<Rightarrow> sim \<Rightarrow> _"
  let ?qp = "query_params []"
  let ?qp1 = "AList.update ''page'' (string_of_nat 1) ?qp"
  let ?s1 = "fetched (page_request demo_cfg ''/numbers'' ?qp 1) (world demo_start) demo_start"
  have f1: "?fetch (page_request demo_cfg ''/numbers'' ?qp 1) (world demo_start) =
      (respond 200 [] (Json (Array (replicate 100 7))), world demo_start)"
    by (simp add: serve_pages_page_request)
  have "paginate_loop ?sys ?fetch demo_cfg ''/numbers'' ?qp 1 [] demo_start =
      paginate_loop ?sys ?fetch demo_cfg ''/numbers'' ?qp1 (1 + 1) (replicate 100 7) ?s1"
    by (subst paginate_loop_unfold [where fetch = ?fetch
          and res = "respond 200 [] (Json (Array (replicate 100 7)))", OF f1])
      (simp add: respond_simps Let_def)
  then have first: "paginate_loop ?sys ?fetch demo_cfg ''/numbers'' ?qp 1 [] demo_start =
      paginate_loop ?sys ?fetch demo_cfg ''/numbers'' ?qp1 2 (replicate 100 7) ?s1"
    by (simp only: one_add_one)
  have f2: "?fetch (page_request demo_cfg ''/numbers'' ?qp1 2) (world ?s1) =
      (respond 200 [] (Json NotArray), world ?s1)"
    by (simp add: serve_pages_page_request)
  have "paginate_loop ?sys ?fetch demo_cfg ''/numbers'' ?qp1 2 (replicate 100 7) ?s1 =
      Some (Inr (replicate 100 7),
            fetched (page_request demo_cfg ''/numbers'' ?qp1 2) (world ?s1) ?s1)"
    by (rule paginate_stops_at_non_array [where fetch = ?fetch, OF f2])
      (simp_all add: respond_simps)
  with first show "\<exists>s'. paginate ?sys ?fetch demo_cfg ''/numbers'' [] demo_start =
      Some (Inr (replicate 100 7), s')"
    by (simp add: paginate_def)
qed

subsection \<open>What is posted\<close>

lemma posted_append: "posted (xs @ ys) = posted xs @ posted ys"
  by (simp add: posted_def)

lemma posted_simps:
  "posted [] = []"
  "posted (Log l # tr) = posted tr"
  "posted (Sleep ms # tr) = posted tr"
  "posted (Fetch req # tr) = (if req_method req = POST then req # posted tr else posted tr)"
  by (simp_all add: posted_def)

lemma method_page_request: "req_method (page_request cfg path qp page) = GET"
  by (simp add: page_request_def request_of_def)

lemma posted_fetched_page:
  "posted (trace (fetched (page_request cfg path qp page) w s)) = posted (trace s)"
  by (simp add: trace_fetched posted_append posted_simps method_page_request)

lemma trace_log: "trace (log l s) = trace s @ [Log l]"
  by (simp add: log_def)

lemma trace_sleep: "trace (sleep sys ms s) = trace s @ [Sleep ms]"
  by (simp add: sleep_def)

lemma paginate_loop_posted:
  fixes sys :: "'w sys" and fetch :: "request \<Rightarrow> 'w \<Rightarrow> 'i listing response \<times> 'w"
  assumes "paginate_loop sys fetch cfg path qp page results s = Some y"
  shows "posted (trace (snd y)) = posted (trace s)"
proof (rule paginate_loop.raw_induct
    [where P = "\<lambda>sys fetch cfg path qp page results s y. posted (trace (snd y)) = posted (trace s)",
      OF _ assms])
  fix loop :: "'w sys \<Rightarrow> (request \<Rightarrow> 'w \<Rightarrow> 'i listing response \<times> 'w) \<Rightarrow> config \<Rightarrow> string \<Rightarrow>
      (string \<times> string) list \<Rightarrow> nat \<Rightarrow> 'i list \<Rightarrow> 'w state \<Rightarrow> ((error + 'i list) \<times> 'w state) option"
    and sys fetch cfg path qp page results s y
  assume IH: "\<And>sys fetch cfg path qp page results s y.
      loop sys fetch cfg path qp page results s = Some y \<Longrightarrow> posted (trace (snd y)) = posted (trace s)"
  assume body: "(let qp1 = AList.update ''page'' (string_of_nat page) qp;
          (res, s1) = api fetch cfg path qp1 GET None s
      in if res_status res = 403 \<and> res_remaining res = Some ''0'' then
           let reset = (case res_reset res of None \<Rightarrow> 0 | Some r \<Rightarrow> r) * 1000;
               waitMs = max 0 (reset - date_now sys (world s1)) + 1000;
               s2 = sleep sys waitMs (log (LogRateLimited waitMs) s1)
           in loop sys fetch cfg path qp1 page results s2
         else if \<not> ok res then Some (Inl (GetFailed path (res_status res) (res_text res)), s1)
         else case res_json res of
             Malformed \<Rightarrow> Some (Inl JsonSyntaxError, s1)
           | Json NotArray \<Rightarrow> Some (Inr results, s1)
           | Json (Array data) \<Rightarrow>
               if data = [] then Some (Inr results, s1)
               else if length data < 100 then Some (Inr (results @ data), s1)
               else loop sys fetch cfg path qp1 (page + 1) (results @ data) s1) = Some y"
  obtain res w where f: "fetch (page_request cfg path qp page) (world s) = (res, w)"
    by (cases "fetch (page_request cfg path qp page) (world s)")
  have a: "api fetch cfg path (AList.update ''page'' (string_of_nat page) qp) GET None s =
      (res, fetched (page_request cfg path qp page) w s)"
    using f by (simp add: api_fetched page_request_def)
  let ?s1 = "fetched (page_request cfg path qp page) w s"
  let ?qp1 = "AList.update ''page'' (string_of_nat page) qp"
  have p1: "posted (trace ?s1) = posted (trace s)"
    by (rule posted_fetched_page)
  show "posted (trace (snd y)) = posted (trace s)"
  proof (cases "res_status res = 403 \<and> res_remaining res = Some ''0''")
    case True
    with body a obtain s2 where
      "loop sys fetch cfg path ?qp1 page results s2 = Some y"
      "posted (trace s2) = posted (trace s)"
      by (simp add: Let_def trace_sleep trace_log posted_append posted_simps p1)
    with IH show ?thesis by simp
  next
    case False
    show ?thesis
    proof (cases "res_json res")
      case Malformed
      with body a False p1 show ?thesis
        by (auto simp add: Let_def split: if_splits)
    next
      case (Json l)
      show ?thesis
      proof (cases l)
        case NotArray
        with body a False p1 Json show ?thesis
          by (auto simp add: Let_def split: if_splits)
      next
        case (Array data)
        show ?thesis
        proof (cases "ok res \<and> data \<noteq> [] \<and> \<not> length data < 100")
          case True
          with body a False Json Array
          have "loop sys fetch cfg path ?qp1 (page + 1) (results @ data) ?s1 = Some y"
            by (simp add: Let_def)
          from IH [OF this] p1 show ?thesis by simp
        next
          case False
          with body a \<open>\<not> (res_status res = 403 \<and> res_remaining res = Some ''0'')\<close> p1 Json Array
          show ?thesis
            by (auto simp add: Let_def split: if_splits)
        qed
      qed
    qed
  qed
qed

subsection \<open>Short lists\<close>

lemma nat_of_digits_100: "nat_of_digits ''100'' = 100"
  by (simp add: nat_of_digits_def digit_val_def)

lemma serve_list_first_page:
  assumes "map_of qp ''per_page'' = Some ''100''" and "length xs < 100"
  shows "serve_list xs (page_request cfg path qp 1) w = (respond 200 [] (Json (Array xs)), w)"
proof -
  have "query_nat (page_request cfg path qp 1) ''per_page'' 30 = 100"
    using assms(1) by (simp add: query_nat_def per_page_page_request nat_of_digits_100)
  with assms(2) show ?thesis
    by (simp add: serve_list_def serve_pages_page_request slice_def)
qed

lemma paginate_short_list:
  assumes "''per_page'' \<notin> fst ` set params" and "length xs < 100"
  shows "paginate sys (serve_list xs) cfg path params s =
      Some (Inr xs, fetched (page_request cfg path (query_params params) 1) (world s) s)"
proof -
  have f: "serve_list xs (page_request cfg path (query_params params) 1) (world s) =
      (respond 200 [] (Json (Array xs)), world s)"
    by (rule serve_list_first_page) (simp_all add: per_page_query_params assms)
  show ?thesis
    unfolding paginate_def using assms(2)
    by (subst paginate_loop_unfold [where fetch = "serve_list xs"
          and res = "respond 200 [] (Json (Array xs))", OF f])
      (auto simp add: respond_simps Let_def)
qed

subsection \<open>The single requests\<close>

lemma getPull_unfold:
  assumes "fetch_pull sys (pull_request cfg n) (world s) = (res, w)"
  shows "getPull sys cfg n s =
     (if \<not> ok res
      then (Inl (GetPullFailed n (res_status res) (res_text res)), fetched (pull_request cfg n) w s)
      else case res_json res of
          Malformed \<Rightarrow> (Inl JsonSyntaxError, fetched (pull_request cfg n) w s)
        | Json pr \<Rightarrow> (Inr pr, fetched (pull_request cfg n) w s))"
  using assms by (simp add: getPull_def pull_request_def api_fetched split: parsed.split)

lemma createComment_unfold:
  assumes "fetch_created sys (comment_request cfg n body) (world s) = (res, w)"
  shows "createComment sys cfg n body s =
     (if \<not> ok res
      then (Inl (PostCommentFailed n (res_status res) (res_text res)),
            fetched (comment_request cfg n body) w s)
      else case res_json res of
          Malformed \<Rightarrow> (Inl JsonSyntaxError, fetched (comment_request cfg n body) w s)
        | Json c \<Rightarrow> (Inr c, fetched (comment_request cfg n body) w s))"
  using assms by (simp add: createComment_def comment_request_def api_fetched split: parsed.split)

subsection \<open>Candidates that get no comment\<close>

lemma getPull_posted:
  assumes "getPull sys cfg n s = (r, s1)"
  shows "posted (trace s1) = posted (trace s)"
proof -
  obtain res w where f: "fetch_pull sys (pull_request cfg n) (world s) = (res, w)"
    by (cases "fetch_pull sys (pull_request cfg n) (world s)")
  have "s1 = fetched (pull_request cfg n) w s"
    using assms unfolding getPull_unfold [OF f]
    by (auto split: if_splits parsed.splits)
  then show ?thesis
    by (simp add: trace_fetched posted_append posted_simps pull_request_def request_of_def)
qed

lemma paginate_posted:
  "paginate sys fetch cfg path params s = Some (r, s') \<Longrightarrow> posted (trace s') = posted (trace s)"
  unfolding paginate_def by (drule paginate_loop_posted) simp

lemma labeledEvents_Nil: "labeledEvents cfg events = [] \<longleftrightarrow> filter (is_labeled cfg) events = []"
proof -
  have "set (labeledEvents cfg events) = set (filter (is_labeled cfg) events)"
    by (simp add: labeledEvents_def)
  then show ?thesis
    by (metis set_empty)
qed

text \<open>
  Claim C3.  A candidate that is not a pull request, or whose pull request has a base
  branch other than the target branch, or whose events hold no application of the
  configured label, ends its round at one of the first three \<open>continue\<close> statements, and
  the round sends no \<open>POST\<close> request: no comment is posted for it.
\<close>

theorem ineligible_candidate_gets_no_comment:
  assumes "\<not> issue_pull_request issue \<or>
     (getPull sys cfg (issue_number issue) s = (Inr pr, s1) \<and>
       (map_option base_ref (pull_base pr) \<noteq> Some (TARGET_BRANCH cfg) \<or>
        (listIssueEvents sys cfg (issue_number issue) s1 = Some (Inr events, s2) \<and>
         filter (is_labeled cfg) events = [])))"
  shows "\<exists>oc s'. process_issue sys cfg now issue s = Some (Inr oc, s') \<and>
      oc \<in> {NotPullRequest, BaseMismatch (map_option base_ref (pull_base pr)), NoLabeledEvent} \<and>
      posted (trace s') = posted (trace s)"
proof (cases "issue_pull_request issue")
  case False
  then show ?thesis
    by (simp add: process_issue_def)
next
  case True
  with assms have g: "getPull sys cfg (issue_number issue) s = (Inr pr, s1)"
    and d: "map_option base_ref (pull_base pr) \<noteq> Some (TARGET_BRANCH cfg) \<or>
        (listIssueEvents sys cfg (issue_number issue) s1 = Some (Inr events, s2) \<and>
         filter (is_labeled cfg) events = [])"
    by auto
  have p1: "posted (trace s1) = posted (trace s)"
    using g by (rule getPull_posted)
  show ?thesis
  proof (cases "map_option base_ref (pull_base pr) = Some (TARGET_BRANCH cfg)")
    case False
    with True g p1 show ?thesis
      by (cases "pull_base pr")
        (simp_all add: process_issue_def trace_log posted_append posted_simps)
  next
    case base: True
    with d have l: "listIssueEvents sys cfg (issue_number issue) s1 = Some (Inr events, s2)"
      and n: "filter (is_labeled cfg) events = []"
      by auto
    from l have p2: "posted (trace s2) = posted (trace s1)"
      unfolding listIssueEvents_def by (rule paginate_posted)
    from n have e: "labeledEvents cfg events = []"
      by (simp add: labeledEvents_Nil)
    from base obtain b where b: "pull_base pr = Some b" "base_ref b = TARGET_BRANCH cfg"
      by (cases "pull_base pr") auto
    with True g l e p1 p2 show ?thesis
      by (simp add: process_issue_def trace_log posted_append posted_simps)
  qed
qed

subsection \<open>The latest event and the latest reminder\<close>

lemma hd_sort_key_desc:
  fixes f :: "'a \<Rightarrow> int"
  assumes "sort_key (\<lambda>x. - f x) xs = y # ys"
  shows "f y = Max (f ` set xs)"
proof -
  have s: "sorted (map (\<lambda>x. - f x) (y # ys))"
    using sorted_sort_key [of "\<lambda>x. - f x" xs] assms by simp
  have e: "set (y # ys) = set xs"
    using set_sort [of "\<lambda>x. - f x" xs] assms by simp
  have "\<forall>x\<in>set xs. f x \<le> f y"
    using s e by auto
  moreover have "y \<in> set xs"
    using e by auto
  ultimately show ?thesis
    by (intro Max_eqI [symmetric]) auto
qed

lemma labeledEvents_hd:
  assumes "filter (is_labeled cfg) events \<noteq> []"
  shows "\<exists>ev rest. labeledEvents cfg events = ev # rest \<and>
      event_created_at ev = Max (event_created_at ` set (filter (is_labeled cfg) events))"
proof -
  from assms have "labeledEvents cfg events \<noteq> []"
    by (simp add: labeledEvents_Nil)
  then obtain ev rest where c: "labeledEvents cfg events = ev # rest"
    by (cases "labeledEvents cfg events") auto
  then have "event_created_at ev = Max (event_created_at ` set (filter (is_labeled cfg) events))"
    unfolding labeledEvents_def by (rule hd_sort_key_desc)
  with c show ?thesis by blast
qed

lemma ourRecent_Nil: "ourRecent cfg comments = [] \<longleftrightarrow> filter (is_ours cfg) comments = []"
proof -
  have "set (ourRecent cfg comments) = set (filter (is_ours cfg) comments)"
    by (simp add: ourRecent_def)
  then show ?thesis
    by (metis set_empty)
qed

lemma ourRecent_hd:
  assumes "filter (is_ours cfg) comments \<noteq> []"
  shows "\<exists>c rest. ourRecent cfg comments = c # rest \<and>
      comment_created_at c = Max (comment_created_at ` set (filter (is_ours cfg) comments))"
proof -
  from assms have "ourRecent cfg comments \<noteq> []"
    by (simp add: ourRecent_Nil)
  then obtain c rest where c: "ourRecent cfg comments = c # rest"
    by (cases "ourRecent cfg comments") auto
  then have "comment_created_at c = Max (comment_created_at ` set (filter (is_ours cfg) comments))"
    unfolding ourRecent_def by (rule hd_sort_key_desc)
  with c show ?thesis by blast
qed

text \<open>The loop body up to the age test.\<close>

lemma process_issue_age_test:
  assumes "issue_pull_request issue"
    and "getPull sys cfg (issue_number issue) s = (Inr pr, s1)"
    and "pull_base pr = Some b" and "base_ref b = TARGET_BRANCH cfg"
    and "listIssueEvents sys cfg (issue_number issue) s1 = Some (Inr events, s2)"
    and "filter (is_labeled cfg) events \<noteq> []"
    and "age = daysBetween now (Max (event_created_at ` set (filter (is_labeled cfg) events)))"
  shows "process_issue sys cfg now issue s =
     (if less_num (Num age) (AFTER_DAYS cfg)
      then Some (Inr (TooYoung age), log (LogAge (issue_number issue) age (AFTER_DAYS cfg)) s2)
      else remind sys cfg now issue b pr age s2)"
proof -
  from labeledEvents_hd [OF assms(6)] obtain ev rest where
    "labeledEvents cfg events = ev # rest"
    "event_created_at ev = Max (event_created_at ` set (filter (is_labeled cfg) events))"
    by blast
  with assms(1-5,7) show ?thesis
    by (simp add: process_issue_def)
qed

lemma remind_not_TooYoung: "remind sys cfg now issue b pr age s \<noteq> Some (Inr (TooYoung a), s')"
  by (auto simp add: remind_def post_reminder_def Let_def split: option.splits sum.splits prod.splits)

lemma daysBetween_floor:
  "300000 * daysBetween a b \<le> a - b \<and> a - b < 300000 * (daysBetween a b + 1)"
proof -
  define d where "d = a - b"
  have "300000 * (d div 300000) \<le> d \<and> d < 300000 * (d div 300000 + 1)"
    by presburger
  then show ?thesis
    by (simp add: daysBetween_def d_def)
qed

subsection \<open>Requests to the simulated service\<close>

lemma getPull_served:
  assumes "fetch_pull sys = serve_value 200 pr"
  shows "getPull sys cfg n s = (Inr pr, fetched (pull_request cfg n) (world s) s)"
  by (subst getPull_unfold [where res = "respond 200 [] (Json pr)" and w = "world s"])
    (simp_all add: assms serve_value_def respond_simps)

lemma createComment_served:
  assumes "fetch_created sys = serve_value 201 ()"
  shows "createComment sys cfg n body s =
     (Inr (), fetched (comment_request cfg n body) (world s) s)"
  by (subst createComment_unfold [where res = "respond 201 [] (Json ())" and w = "world s"])
    (simp_all add: assms serve_value_def respond_simps)

lemma listOpenIssuesWithLabel_served:
  assumes "fetch_issues sys = serve_list is" and "length is < 100"
  shows "listOpenIssuesWithLabel sys cfg label s =
     Some (Inr is,
       fetched (page_request cfg (repo_path cfg @ ''/issues'')
         (query_params [(''state'', ''open''), (''labels'', label)]) 1) (world s) s)"
  using assms by (simp add: listOpenIssuesWithLabel_def paginate_short_list)

lemma listIssueEvents_served:
  assumes "fetch_events sys = serve_list evs" and "length evs < 100"
  shows "listIssueEvents sys cfg n s =
     Some (Inr evs,
       fetched (page_request cfg (repo_path cfg @ ''/issues/'' @ string_of_nat n @ ''/events'')
         (query_params []) 1) (world s) s)"
  using assms by (simp add: listIssueEvents_def paginate_short_list)

lemma listComments_served:
  assumes "fetch_comments sys = serve_list cs" and "length cs < 100"
  shows "listComments sys cfg n s =
     Some (Inr cs,
       fetched (page_request cfg (repo_path cfg @ ''/issues/'' @ string_of_nat n @ ''/comments'')
         (query_params []) 1) (world s) s)"
  using assms by (simp add: listComments_def paginate_short_list)

lemma sim_sys_simps:
  "date_now (sim_sys is pr evs cs) = sim_clock"
  "set_timeout (sim_sys is pr evs cs) = (\<lambda>ms w. w\<lparr>sim_clock := sim_clock w + ms\<rparr>)"
  "fetch_issues (sim_sys is pr evs cs) = serve_list is"
  "fetch_pull (sim_sys is pr evs cs) = serve_value 200 pr"
  "fetch_events (sim_sys is pr evs cs) = serve_list evs"
  "fetch_comments (sim_sys is pr evs cs) = serve_list cs"
  "fetch_created (sim_sys is pr evs cs) = serve_value 201 ()"
  by (simp_all add: sim_sys_def)

lemma getPull_sim:
  "getPull (sim_sys is pr evs cs) cfg n s = (Inr pr, fetched (pull_request cfg n) (world s) s)"
  by (rule getPull_served) (simp add: sim_sys_simps)

lemma listIssueEvents_sim:
  "length evs < 100 \<Longrightarrow>
   listIssueEvents (sim_sys is pr evs cs) cfg n s =
     Some (Inr evs,
       fetched (page_request cfg (repo_path cfg @ ''/issues/'' @ string_of_nat n @ ''/events'')
         (query_params []) 1) (world s) s)"
  by (rule listIssueEvents_served) (simp_all add: sim_sys_simps)

lemma listComments_sim:
  "length cs < 100 \<Longrightarrow>
   listComments (sim_sys is pr evs cs) cfg n s =
     Some (Inr cs,
       fetched (page_request cfg (repo_path cfg @ ''/issues/'' @ string_of_nat n @ ''/comments'')
         (query_params []) 1) (world s) s)"
  by (rule listComments_served) (simp_all add: sim_sys_simps)

subsection \<open>The age threshold\<close>

text \<open>
  Claim C1.  Take a candidate that is a pull request on the target branch with at least
  one application of the label, the latest at time \<open>L\<close>.  Its age is the whole number of
  units of 300000 milliseconds that fit into \<open>now - L\<close>.  The round ends at the age test
  (line 126) if and only if the age is less than the threshold, and goes on to the
  comments otherwise; with an integer threshold \<open>t\<close> the test is \<open>age < t\<close>, so that an age
  equal to the threshold is not skipped.
\<close>

theorem label_age_threshold:
  assumes "issue_pull_request issue"
    and "getPull sys cfg (issue_number issue) s = (Inr pr, s1)"
    and "pull_base pr = Some b" and "base_ref b = TARGET_BRANCH cfg"
    and "listIssueEvents sys cfg (issue_number issue) s1 = Some (Inr events, s2)"
    and "filter (is_labeled cfg) events \<noteq> []"
    and "L = Max (event_created_at ` set (filter (is_labeled cfg) events))"
    and "age = daysBetween now L"
  shows "(300000 * age \<le> now - L \<and> now - L < 300000 * (age + 1)) \<and>
    ((\<exists>a s'. process_issue sys cfg now issue s = Some (Inr (TooYoung a), s')) \<longleftrightarrow>
       less_num (Num age) (AFTER_DAYS cfg)) \<and>
    (less_num (Num age) (AFTER_DAYS cfg) \<longrightarrow>
       process_issue sys cfg now issue s =
         Some (Inr (TooYoung age), log (LogAge (issue_number issue) age (AFTER_DAYS cfg)) s2)) \<and>
    (\<not> less_num (Num age) (AFTER_DAYS cfg) \<longrightarrow>
       process_issue sys cfg now issue s = remind sys cfg now issue b pr age s2) \<and>
    (\<forall>t. AFTER_DAYS cfg = Num t \<longrightarrow> (less_num (Num age) (AFTER_DAYS cfg) \<longleftrightarrow> age < t))"
proof -
  have a: "age = daysBetween now (Max (event_created_at ` set (filter (is_labeled cfg) events)))"
    using assms(7,8) by simp
  note p = process_issue_age_test [OF assms(1-6) a]
  have "300000 * age \<le> now - L \<and> now - L < 300000 * (age + 1)"
    unfolding assms(8) by (rule daysBetween_floor)
  moreover have "(\<exists>a s'. process_issue sys cfg now issue s = Some (Inr (TooYoung a), s')) \<longleftrightarrow>
       less_num (Num age) (AFTER_DAYS cfg)"
    unfolding p by (simp add: remind_not_TooYoung)
  moreover have "\<forall>t. AFTER_DAYS cfg = Num t \<longrightarrow> (less_num (Num age) (AFTER_DAYS cfg) \<longleftrightarrow> age < t)"
    by simp
  ultimately show ?thesis
    using p by simp
qed


lemma demo_pull_base:
  "pull_base demo_pull = Some \<lparr>base_ref = ''master'', base_repo_owner_login = ''elastic''\<rparr>"
  by (simp add: demo_pull_def)

lemma demo_is_labeled: "is_labeled demo_cfg (demo_labeled t)"
  by (simp add: is_labeled_def demo_cfg_def demo_labeled_def)

lemma demo_labeled_at: "event_created_at (demo_labeled t) = t"
  by (simp add: demo_labeled_def)

text \<open>
  With the threshold 7 and the time 6000000: a label applied 2099999 milliseconds ago has
  age 6 and is skipped, one applied 2100000 milliseconds ago has age 7 and is not.
\<close>

theorem label_age_threshold_example:
  "(\<exists>s'. process_issue (sim_sys [demo_issue] demo_pull [demo_labeled 3900001] []) demo_cfg 6000000
          demo_issue demo_start = Some (Inr (TooYoung 6), s')) \<and>
   \<not> (\<exists>a s'. process_issue (sim_sys [demo_issue] demo_pull [demo_labeled 3900000] []) demo_cfg 6000000
          demo_issue demo_start = Some (Inr (TooYoung a), s'))"
proof -
  let ?b = "\<lparr>base_ref = ''master'', base_repo_owner_login = ''elastic''\<rparr>"
  have h1: "issue_pull_request demo_issue"
    by (simp add: demo_issue_def)
  have h4: "base_ref ?b = TARGET_BRANCH demo_cfg"
    by (simp add: demo_cfg_def)
  have h6: "filter (is_labeled demo_cfg) [demo_labeled t] \<noteq> []" for t
    by (simp add: demo_is_labeled)
  have h7: "t = Max (event_created_at ` set (filter (is_labeled demo_cfg) [demo_labeled t]))" for t
    by (simp add: demo_is_labeled demo_labeled_at)
  have young: "6 = daysBetween 6000000 3900001"
    by (simp add: daysBetween_def)
  have due: "7 = daysBetween 6000000 3900000"
    by (simp add: daysBetween_def)
  have th: "AFTER_DAYS demo_cfg = Num 7"
    by (simp add: demo_cfg_def)
  note a = label_age_threshold [OF h1 getPull_sim demo_pull_base h4 listIssueEvents_sim h6 h7 young,
      of "[demo_issue]" "[]" demo_start]
  note b = label_age_threshold [OF h1 getPull_sim demo_pull_base h4 listIssueEvents_sim h6 h7 due,
      of "[demo_issue]" "[]" demo_start]
  from a [THEN conjunct2, THEN conjunct2, THEN conjunct1] have "\<exists>s'. process_issue (sim_sys [demo_issue] demo_pull [demo_labeled 3900001] []) demo_cfg
      6000000 demo_issue demo_start = Some (Inr (TooYoung 6), s')"
    by (simp add: th)
  moreover from b [THEN conjunct2, THEN conjunct1] have "\<not> (\<exists>a s'. process_issue (sim_sys [demo_issue] demo_pull [demo_labeled 3900000] [])
      demo_cfg 6000000 demo_issue demo_start = Some (Inr (TooYoung a), s'))"
    by (simp add: th)
  ultimately show ?thesis by simp
qed

subsection \<open>The reminder interval\<close>

lemma remind_interval_test:
  assumes "listComments sys cfg (issue_number issue) s = Some (Inr comments, s1)"
    and "filter (is_ours cfg) comments \<noteq> []"
    and "since = daysBetween now (Max (comment_created_at ` set (filter (is_ours cfg) comments)))"
  shows "remind sys cfg now issue b pr age s =
     (if less_num (Num since) (EVERY_DAYS cfg)
      then Some (Inr (RecentlyReminded since),
                 log (LogReminded (issue_number issue) since (EVERY_DAYS cfg)) s1)
      else post_reminder sys cfg issue b pr age s1)"
proof -
  from ourRecent_hd [OF assms(2)] obtain c rest where
    "ourRecent cfg comments = c # rest"
    "comment_created_at c = Max (comment_created_at ` set (filter (is_ours cfg) comments))"
    by blast
  with assms(1,3) show ?thesis
    by (simp add: remind_def recently_reminded_def)
qed

lemma post_reminder_not_RecentlyReminded:
  "post_reminder sys cfg issue b pr age s \<noteq> Some (Inr (RecentlyReminded x), s')"
  by (auto simp add: post_reminder_def Let_def split: sum.splits prod.splits)

lemma post_reminder_posted:
  "\<exists>r s'. post_reminder sys cfg issue b pr age s = Some (r, s') \<and>
      posted (trace s') =
        posted (trace s) @
          [comment_request cfg (issue_number issue) (reminder_body cfg (mentions issue b pr) age)]"
proof -
  let ?req = "comment_request cfg (issue_number issue) (reminder_body cfg (mentions issue b pr) age)"
  obtain res w where f: "fetch_created sys ?req (world s) = (res, w)"
    by (cases "fetch_created sys ?req (world s)")
  have m: "req_method ?req = POST"
    by (simp add: comment_request_def request_of_def)
  show ?thesis
    unfolding post_reminder_def Let_def createComment_unfold [OF f]
    by (auto simp add: trace_fetched trace_log trace_sleep posted_append posted_simps m
        split: parsed.splits)
qed

text \<open>
  Claim C2.  Take a candidate that passes the age test and has at least one comment by an
  automated author (type \<open>Bot\<close>, or a login that contains \<open>github-actions\<close>) whose body
  contains the marker, the latest of them at time \<open>T\<close>.  The round ends at the interval
  test (line 143) if and only if the whole number of units from \<open>T\<close> to \<open>now\<close> is less
  than the reminder interval; otherwise the reminder is composed and posted.  With an
  integer interval \<open>t\<close> the test is \<open>since < t\<close>.
\<close>

theorem reminder_interval:
  assumes "issue_pull_request issue"
    and "getPull sys cfg (issue_number issue) s = (Inr pr, s1)"
    and "pull_base pr = Some b" and "base_ref b = TARGET_BRANCH cfg"
    and "listIssueEvents sys cfg (issue_number issue) s1 = Some (Inr events, s2)"
    and "filter (is_labeled cfg) events \<noteq> []"
    and "age = daysBetween now (Max (event_created_at ` set (filter (is_labeled cfg) events)))"
    and "\<not> less_num (Num age) (AFTER_DAYS cfg)"
    and "listComments sys cfg (issue_number issue) s2 = Some (Inr comments, s3)"
    and "filter (is_ours cfg) comments \<noteq> []"
    and "T = Max (comment_created_at ` set (filter (is_ours cfg) comments))"
    and "since = daysBetween now T"
  shows "(300000 * since \<le> now - T \<and> now - T < 300000 * (since + 1)) \<and>
    ((\<exists>x s'. process_issue sys cfg now issue s = Some (Inr (RecentlyReminded x), s')) \<longleftrightarrow>
       less_num (Num since) (EVERY_DAYS cfg)) \<and>
    (less_num (Num since) (EVERY_DAYS cfg) \<longrightarrow>
       process_issue sys cfg now issue s =
         Some (Inr (RecentlyReminded since),
               log (LogReminded (issue_number issue) since (EVERY_DAYS cfg)) s3)) \<and>
    (\<not> less_num (Num since) (EVERY_DAYS cfg) \<longrightarrow>
       process_issue sys cfg now issue s = post_reminder sys cfg issue b pr age s3) \<and>
    (\<forall>t. EVERY_DAYS cfg = Num t \<longrightarrow> (less_num (Num since) (EVERY_DAYS cfg) \<longleftrightarrow> since < t))"
proof -
  have p: "process_issue sys cfg now issue s = remind sys cfg now issue b pr age s2"
    using process_issue_age_test [OF assms(1-7)] assms(8) by simp
  have a: "since = daysBetween now (Max (comment_created_at ` set (filter (is_ours cfg) comments)))"
    using assms(11,12) by simp
  note r = remind_interval_test [OF assms(9,10) a]
  have "300000 * since \<le> now - T \<and> now - T < 300000 * (since + 1)"
    unfolding assms(12) by (rule daysBetween_floor)
  moreover have "(\<exists>x s'. process_issue sys cfg now issue s = Some (Inr (RecentlyReminded x), s')) \<longleftrightarrow>
       less_num (Num since) (EVERY_DAYS cfg)"
    unfolding p r by (simp add: post_reminder_not_RecentlyReminded)
  moreover have "\<forall>t. EVERY_DAYS cfg = Num t \<longrightarrow> (less_num (Num since) (EVERY_DAYS cfg) \<longleftrightarrow> since < t)"
    by simp
  ultimately show ?thesis
    using p r by simp
qed


lemma demo_is_ours:
  "is_ours demo_cfg (demo_reminder t)" "\<not> is_ours demo_cfg demo_chat"
  "comment_created_at (demo_reminder t) = t"
  by (simp_all add: is_ours_def demo_cfg_def demo_chat_def demo_reminder_def)

lemma demo_not_labeled: "\<not> is_labeled demo_cfg demo_assigned"
  by (simp add: is_labeled_def demo_assigned_def)

text \<open>
  With the interval 7: a reminder of 2099999 milliseconds ago is 6 units old and holds the
  next one back, a reminder of 2100000 milliseconds ago does not.  The later comment of a
  human and the later event of another kind are not looked at.
\<close>

theorem reminder_interval_example:
  "(\<exists>s'. process_issue
          (sim_sys [demo_issue] demo_pull [demo_labeled 3000000, demo_assigned]
             [demo_chat, demo_reminder 3900001])
          demo_cfg 6000000 demo_issue demo_start = Some (Inr (RecentlyReminded 6), s')) \<and>
   \<not> (\<exists>x s'. process_issue
          (sim_sys [demo_issue] demo_pull [demo_labeled 3000000, demo_assigned]
             [demo_chat, demo_reminder 3900000])
          demo_cfg 6000000 demo_issue demo_start = Some (Inr (RecentlyReminded x), s'))"
proof -
  let ?b = "\<lparr>base_ref = ''master'', base_repo_owner_login = ''elastic''\<rparr>"
  let ?evs = "[demo_labeled 3000000, demo_assigned]"
  have h1: "issue_pull_request demo_issue"
    by (simp add: demo_issue_def)
  have h4: "base_ref ?b = TARGET_BRANCH demo_cfg"
    by (simp add: demo_cfg_def)
  have h5: "length ?evs < 100" by simp
  have h6: "filter (is_labeled demo_cfg) ?evs \<noteq> []"
    by (simp add: demo_is_labeled)
  have h7: "10 = daysBetween 6000000 (Max (event_created_at ` set (filter (is_labeled demo_cfg) ?evs)))"
    by (simp add: demo_is_labeled demo_not_labeled demo_labeled_at daysBetween_def)
  have h8: "\<not> less_num (Num 10) (AFTER_DAYS demo_cfg)"
    by (simp add: demo_cfg_def)
  have h9: "length [demo_chat, demo_reminder t] < 100" for t by simp
  have h10: "filter (is_ours demo_cfg) [demo_chat, demo_reminder t] \<noteq> []" for t
    by (simp add: demo_is_ours)
  have h11: "t = Max (comment_created_at ` set (filter (is_ours demo_cfg) [demo_chat, demo_reminder t]))"
    for t
    by (simp add: demo_is_ours)
  have recent: "6 = daysBetween 6000000 3900001"
    by (simp add: daysBetween_def)
  have due: "7 = daysBetween 6000000 3900000"
    by (simp add: daysBetween_def)
  have th: "EVERY_DAYS demo_cfg = Num 7"
    by (simp add: demo_cfg_def)
  note a = reminder_interval [OF h1 getPull_sim demo_pull_base h4 listIssueEvents_sim [OF h5] h6 h7 h8
      listComments_sim [OF h9] h10 h11 recent]
  note b = reminder_interval [OF h1 getPull_sim demo_pull_base h4 listIssueEvents_sim [OF h5] h6 h7 h8
      listComments_sim [OF h9] h10 h11 due]
  from a [THEN conjunct2, THEN conjunct2, THEN conjunct1]
  have "\<exists>s'. process_issue
          (sim_sys [demo_issue] demo_pull [demo_labeled 3000000, demo_assigned]
             [demo_chat, demo_reminder 3900001])
          demo_cfg 6000000 demo_issue demo_start = Some (Inr (RecentlyReminded 6), s')"
    by (simp add: th)
  moreover from b [THEN conjunct2, THEN conjunct1]
  have "\<not> (\<exists>x s'. process_issue
          (sim_sys [demo_issue] demo_pull [demo_labeled 3000000, demo_assigned]
             [demo_chat, demo_reminder 3900000])
          demo_cfg 6000000 demo_issue demo_start = Some (Inr (RecentlyReminded x), s'))"
    by (simp add: th)
  ultimately show ?thesis by simp
qed

text \<open>The three cases of claim C3 in the example repository.\<close>

theorem ineligible_candidate_example:
  "(\<exists>oc s'. process_issue (sim_sys [] demo_pull [] []) demo_cfg 6000000
        (demo_issue\<lparr>issue_pull_request := False\<rparr>) demo_start = Some (Inr oc, s') \<and>
      oc \<in> {NotPullRequest, BaseMismatch (Some ''master''), NoLabeledEvent} \<and> posted (trace s') = []) \<and>
   (\<exists>oc s'. process_issue
        (sim_sys [] (demo_pull\<lparr>pull_base := Some \<lparr>base_ref = ''7.x'', base_repo_owner_login = ''elastic''\<rparr>\<rparr>)
           [demo_labeled 0] [])
        demo_cfg 6000000 demo_issue demo_start = Some (Inr oc, s') \<and>
      oc \<in> {NotPullRequest, BaseMismatch (Some ''7.x''), NoLabeledEvent} \<and> posted (trace s') = []) \<and>
   (\<exists>oc s'. process_issue (sim_sys [] demo_pull [demo_assigned] []) demo_cfg 6000000 demo_issue
        demo_start = Some (Inr oc, s') \<and>
      oc \<in> {NotPullRequest, BaseMismatch (Some ''master''), NoLabeledEvent} \<and> posted (trace s') = [])"
proof -
  have e: "posted (trace demo_start) = []"
    by (simp add: demo_start_def posted_simps)
  have a: "\<not> issue_pull_request (demo_issue\<lparr>issue_pull_request := False\<rparr>) \<or>
     (getPull (sim_sys [] demo_pull [] []) demo_cfg
        (issue_number (demo_issue\<lparr>issue_pull_request := False\<rparr>)) demo_start = (Inr demo_pull, s1) \<and>
       (map_option base_ref (pull_base demo_pull) \<noteq> Some (TARGET_BRANCH demo_cfg) \<or>
        (listIssueEvents (sim_sys [] demo_pull [] []) demo_cfg
           (issue_number (demo_issue\<lparr>issue_pull_request := False\<rparr>)) s1 = Some (Inr [], s2) \<and>
         filter (is_labeled demo_cfg) [] = [])))" for s1 s2
    by simp
  let ?pr = "demo_pull\<lparr>pull_base := Some \<lparr>base_ref = ''7.x'', base_repo_owner_login = ''elastic''\<rparr>\<rparr>"
  have b: "\<not> issue_pull_request demo_issue \<or>
     (getPull (sim_sys [] ?pr [demo_labeled 0] []) demo_cfg (issue_number demo_issue) demo_start =
        (Inr ?pr, fetched (pull_request demo_cfg (issue_number demo_issue)) (world demo_start) demo_start) \<and>
       (map_option base_ref (pull_base ?pr) \<noteq> Some (TARGET_BRANCH demo_cfg) \<or>
        (listIssueEvents (sim_sys [] ?pr [demo_labeled 0] []) demo_cfg (issue_number demo_issue)
           (fetched (pull_request demo_cfg (issue_number demo_issue)) (world demo_start) demo_start) =
           Some (Inr [], s2) \<and>
         filter (is_labeled demo_cfg) [] = [])))" for s2
    by (simp add: getPull_sim demo_cfg_def)
  let ?s1 = "fetched (pull_request demo_cfg (issue_number demo_issue)) (world demo_start) demo_start"
  let ?s2 = "fetched (page_request demo_cfg
      (repo_path demo_cfg @ ''/issues/'' @ string_of_nat (issue_number demo_issue) @ ''/events'')
      (query_params []) 1) (world ?s1) ?s1"
  have c: "\<not> issue_pull_request demo_issue \<or>
     (getPull (sim_sys [] demo_pull [demo_assigned] []) demo_cfg (issue_number demo_issue) demo_start =
        (Inr demo_pull, ?s1) \<and>
       (map_option base_ref (pull_base demo_pull) \<noteq> Some (TARGET_BRANCH demo_cfg) \<or>
        (listIssueEvents (sim_sys [] demo_pull [demo_assigned] []) demo_cfg (issue_number demo_issue) ?s1 =
           Some (Inr [demo_assigned], ?s2) \<and>
         filter (is_labeled demo_cfg) [demo_assigned] = [])))"
    by (simp add: getPull_sim listIssueEvents_sim demo_not_labeled)
  from ineligible_candidate_gets_no_comment [OF a, of 6000000]
    ineligible_candidate_gets_no_comment [OF b, of 6000000]
    ineligible_candidate_gets_no_comment [OF c, of 6000000]
  show ?thesis
    by (simp add: e demo_pull_base)
qed

subsection \<open>Failed requests\<close>

lemma paginate_loop_failure:
  assumes "fetch (page_request cfg path qp page) (world s) = (res, w)"
    and "\<not> ok res" and "\<not> (res_status res = 403 \<and> res_remaining res = Some ''0'')"
  shows "paginate_loop sys fetch cfg path qp page results s =
      Some (Inl (GetFailed path (res_status res) (res_text res)),
            fetched (page_request cfg path qp page) w s)"
  using assms(2,3)
  by (subst paginate_loop_unfold [where fetch = fetch and res = res, OF assms(1)]) auto

lemma paginate_loop_next_page:
  assumes "fetch (page_request cfg path qp page) (world s) = (res, w)"
    and "ok res" and "res_json res = Json (Array data)" and "100 \<le> length data"
  shows "paginate_loop sys fetch cfg path qp page results s =
      paginate_loop sys fetch cfg path (AList.update ''page'' (string_of_nat page) qp) (page + 1)
        (results @ data) (fetched (page_request cfg path qp page) w s)"
  using assms(2-4) ok_not_403 [OF assms(2)]
  by (subst paginate_loop_unfold [where fetch = fetch and res = res, OF assms(1)])
    (auto simp add: Let_def)

lemma getPull_failure:
  assumes "fetch_pull sys (pull_request cfg n) (world s) = (res, w)" and "\<not> ok res"
  shows "getPull sys cfg n s =
      (Inl (GetPullFailed n (res_status res) (res_text res)), fetched (pull_request cfg n) w s)"
  using assms(2) by (simp add: getPull_unfold [OF assms(1)])

lemma createComment_failure:
  assumes "fetch_created sys (comment_request cfg n body) (world s) = (res, w)" and "\<not> ok res"
  shows "createComment sys cfg n body s =
      (Inl (PostCommentFailed n (res_status res) (res_text res)),
       fetched (comment_request cfg n body) w s)"
  using assms(2) by (simp add: createComment_unfold [OF assms(1)])

lemma listOpenIssuesWithLabel_error:
  assumes "paginate_loop sys (fetch_issues sys) cfg (repo_path cfg @ ''/issues'')
      (query_params [(''state'', ''open''), (''labels'', label)]) 1 [] s = Some (Inl e, s1)"
  shows "listOpenIssuesWithLabel sys cfg label s = Some (Inl e, s1)"
  using assms by (simp add: listOpenIssuesWithLabel_def paginate_def)

lemma listIssueEvents_error:
  assumes "paginate_loop sys (fetch_events sys) cfg
      (repo_path cfg @ ''/issues/'' @ string_of_nat n @ ''/events'') (query_params []) 1 [] s =
        Some (Inl e, s1)"
  shows "listIssueEvents sys cfg n s = Some (Inl e, s1)"
  using assms by (simp add: listIssueEvents_def paginate_def)

lemma listComments_error:
  assumes "paginate_loop sys (fetch_comments sys) cfg
      (repo_path cfg @ ''/issues/'' @ string_of_nat n @ ''/comments'') (query_params []) 1 [] s =
        Some (Inl e, s1)"
  shows "listComments sys cfg n s = Some (Inl e, s1)"
  using assms by (simp add: listComments_def paginate_def)

lemma process_issue_getPull_error:
  assumes "issue_pull_request issue" and "getPull sys cfg (issue_number issue) s = (Inl e, s1)"
  shows "process_issue sys cfg now issue s = Some (Inl e, s1)"
  using assms by (simp add: process_issue_def)

lemma process_issue_events_error:
  assumes "issue_pull_request issue"
    and "getPull sys cfg (issue_number issue) s = (Inr pr, s1)"
    and "pull_base pr = Some b" and "base_ref b = TARGET_BRANCH cfg"
    and "listIssueEvents sys cfg (issue_number issue) s1 = Some (Inl e, s2)"
  shows "process_issue sys cfg now issue s = Some (Inl e, s2)"
  using assms by (simp add: process_issue_def)

lemma remind_comments_error:
  assumes "listComments sys cfg (issue_number issue) s = Some (Inl e, s1)"
  shows "remind sys cfg now issue b pr age s = Some (Inl e, s1)"
  using assms by (simp add: remind_def)

lemma post_reminder_error:
  assumes "createComment sys cfg (issue_number issue) (reminder_body cfg (mentions issue b pr) age) s =
      (Inl e, s1)"
  shows "post_reminder sys cfg issue b pr age s = Some (Inl e, s1)"
  using assms by (simp add: post_reminder_def)

lemma process_issue_comments_error:
  assumes "issue_pull_request issue"
    and "getPull sys cfg (issue_number issue) s = (Inr pr, s1)"
    and "pull_base pr = Some b" and "base_ref b = TARGET_BRANCH cfg"
    and "listIssueEvents sys cfg (issue_number issue) s1 = Some (Inr events, s2)"
    and "filter (is_labeled cfg) events \<noteq> []"
    and "age = daysBetween now (Max (event_created_at ` set (filter (is_labeled cfg) events)))"
    and "\<not> less_num (Num age) (AFTER_DAYS cfg)"
    and "listComments sys cfg (issue_number issue) s2 = Some (Inl e, s3)"
  shows "process_issue sys cfg now issue s = Some (Inl e, s3)"
proof -
  have "process_issue sys cfg now issue s = remind sys cfg now issue b pr age s2"
    using process_issue_age_test [OF assms(1-7)] assms(8) by simp
  also have "\<dots> = Some (Inl e, s3)"
    using assms(9) by (rule remind_comments_error)
  finally show ?thesis .
qed

lemma process_issue_post_error:
  assumes "issue_pull_request issue"
    and "getPull sys cfg (issue_number issue) s = (Inr pr, s1)"
    and "pull_base pr = Some b" and "base_ref b = TARGET_BRANCH cfg"
    and "listIssueEvents sys cfg (issue_number issue) s1 = Some (Inr events, s2)"
    and "filter (is_labeled cfg) events \<noteq> []"
    and "age = daysBetween now (Max (event_created_at ` set (filter (is_labeled cfg) events)))"
    and "\<not> less_num (Num age) (AFTER_DAYS cfg)"
    and "listComments sys cfg (issue_number issue) s2 = Some (Inr comments, s3)"
    and "recently_reminded cfg now (ourRecent cfg comments) = None"
    and "createComment sys cfg (issue_number issue)
        (reminder_body cfg (mentions issue b pr) age) s3 = (Inl e, s4)"
  shows "process_issue sys cfg now issue s = Some (Inl e, s4)"
proof -
  have "process_issue sys cfg now issue s = remind sys cfg now issue b pr age s2"
    using process_issue_age_test [OF assms(1-7)] assms(8) by simp
  also have "\<dots> = post_reminder sys cfg issue b pr age s3"
    using assms(9,10) by (simp add: remind_def)
  also have "\<dots> = Some (Inl e, s4)"
    using assms(11) by (rule post_reminder_error)
  finally show ?thesis .
qed

lemma for_issues_abort:
  assumes "for_issues sys cfg now done s = Some (Inr ocs, s1)"
    and "process_issue sys cfg now issue s1 = Some (Inl e, s2)"
  shows "for_issues sys cfg now (done @ issue # rest) s = Some (Inl e, s2)"
  using assms
proof (induction "done" arbitrary: s ocs)
  case Nil
  then show ?case by simp
next
  case (Cons i rest0)
  from Cons.prems(1) obtain oc sa ocs' where
    "process_issue sys cfg now i s = Some (Inr oc, sa)"
    "for_issues sys cfg now rest0 sa = Some (Inr ocs', s1)"
    by (auto split: option.splits sum.splits prod.splits)
  with Cons.IH [OF _ Cons.prems(2)] show ?case by simp
qed

lemma run_listing_error:
  assumes "listOpenIssuesWithLabel sys cfg (LABEL_NAME cfg)
      (log (LogThreshold (AFTER_DAYS cfg) (EVERY_DAYS cfg))
         (log (LogLabel (LABEL_NAME cfg) (TARGET_BRANCH cfg))
            (log (LogRepo (OWNER cfg) (REPO cfg)) s))) = Some (Inl e, s2)"
  shows "run sys cfg s = Some (Inl e, s2)"
  using assms by (simp add: run_def)

lemma run_error:
  assumes "listOpenIssuesWithLabel sys cfg (LABEL_NAME cfg)
      (log (LogThreshold (AFTER_DAYS cfg) (EVERY_DAYS cfg))
         (log (LogLabel (LABEL_NAME cfg) (TARGET_BRANCH cfg))
            (log (LogRepo (OWNER cfg) (REPO cfg)) s))) = Some (Inr issues, s2)"
    and "for_issues sys cfg (date_now sys (world s)) issues s2 = Some (Inl e, s3)"
  shows "run sys cfg s = Some (Inl e, s3)"
  using assms by (simp add: run_def)

lemma main_error:
  assumes "load_config env = Inr cfg" and "run sys cfg \<lparr>world = w, trace = []\<rparr> = Some (Inl e, s')"
  shows "main sys env w = Some (1, log (LogError (message e)) s')"
  using assms by (simp add: main_def)

lemma main_listing_error:
  assumes "load_config env = Inr cfg"
    and "listOpenIssuesWithLabel sys cfg (LABEL_NAME cfg)
      (log (LogThreshold (AFTER_DAYS cfg) (EVERY_DAYS cfg))
         (log (LogLabel (LABEL_NAME cfg) (TARGET_BRANCH cfg))
            (log (LogRepo (OWNER cfg) (REPO cfg)) \<lparr>world = w, trace = []\<rparr>))) = Some (Inl e, s2)"
  shows "main sys env w = Some (1, log (LogError (message e)) s2)"
  using assms(1) run_listing_error [OF assms(2)] by (rule main_error)

lemma main_round_error:
  assumes "load_config env = Inr cfg"
    and "listOpenIssuesWithLabel sys cfg (LABEL_NAME cfg)
      (log (LogThreshold (AFTER_DAYS cfg) (EVERY_DAYS cfg))
         (log (LogLabel (LABEL_NAME cfg) (TARGET_BRANCH cfg))
            (log (LogRepo (OWNER cfg) (REPO cfg)) \<lparr>world = w, trace = []\<rparr>))) =
        Some (Inr (before @ issue # rest), s2)"
    and "for_issues sys cfg (date_now sys w) before s2 = Some (Inr ocs, s3)"
    and "process_issue sys cfg (date_now sys w) issue s3 = Some (Inl e, s4)"
  shows "main sys env w = Some (1, log (LogError (message e)) s4)"
proof -
  have "for_issues sys cfg (date_now sys (world \<lparr>world = w, trace = []\<rparr>)) (before @ issue # rest) s2 =
      Some (Inl e, s4)"
    using for_issues_abort [OF assms(3,4)] by simp
  with assms(2) have "run sys cfg \<lparr>world = w, trace = []\<rparr> = Some (Inl e, s4)"
    by (rule run_error)
  with assms(1) show ?thesis
    by (rule main_error)
qed

text \<open>
  Claim C8.  A response that is neither a success nor the rate-limit signal makes the loop
  of \<open>paginate\<close>, at whatever page it stands, throw an error that carries the path, the
  status and the body; and after a full page the result of the loop is what the loop
  returns from the next page on, an error too.  A response that is not a success makes
  \<open>getPull\<close> and \<open>createComment\<close> throw an error that carries the number, the status and
  the body.  An error of the loop is the error of the three operations that list.  Nothing in a round catches: the error of \<open>getPull\<close>,
  of \<open>listIssueEvents\<close>, of \<open>listComments\<close> and of \<open>createComment\<close> is the result of the
  round that called it.  An error in a round is the result of the whole \<open>for\<close> loop,
  whatever candidates remain.  \<open>run\<close> ends with the error of the first listing and with
  the error of the loop; an error of \<open>run\<close> makes the script print it and exit with
  status 1.  Put together: when the listing of the candidates fails, and when the round of
  any candidate fails after the rounds before it, the script exits with status 1, the
  message of the error being the last line of the trace.
\<close>

theorem request_failure_is_fatal:
  "(fetch (page_request cfg path qp page) (world s) = (res, w) \<and> \<not> ok res \<and>
      \<not> (res_status res = 403 \<and> res_remaining res = Some ''0'') \<longrightarrow>
    paginate_loop sys fetch cfg path qp page results s =
      Some (Inl (GetFailed path (res_status res) (res_text res)),
            fetched (page_request cfg path qp page) w s)) \<and>
   (fetch (page_request cfg path qp page) (world s) = (res, w) \<and> ok res \<and>
      res_json res = Json (Array data) \<and> 100 \<le> length data \<longrightarrow>
    paginate_loop sys fetch cfg path qp page results s =
      paginate_loop sys fetch cfg path (AList.update ''page'' (string_of_nat page) qp) (page + 1)
        (results @ data) (fetched (page_request cfg path qp page) w s)) \<and>
   (fetch_pull sys (pull_request cfg n) (world s) = (pres, w) \<and> \<not> ok pres \<longrightarrow>
    getPull sys cfg n s =
      (Inl (GetPullFailed n (res_status pres) (res_text pres)), fetched (pull_request cfg n) w s)) \<and>
   (fetch_created sys (comment_request cfg n body) (world s) = (cres, w) \<and> \<not> ok cres \<longrightarrow>
    createComment sys cfg n body s =
      (Inl (PostCommentFailed n (res_status cres) (res_text cres)),
       fetched (comment_request cfg n body) w s)) \<and>
   (paginate_loop sys (fetch_issues sys) cfg (repo_path cfg @ ''/issues'')
      (query_params [(''state'', ''open''), (''labels'', label)]) 1 [] s = Some (Inl e, s1) \<longrightarrow>
    listOpenIssuesWithLabel sys cfg label s = Some (Inl e, s1)) \<and>
   (paginate_loop sys (fetch_events sys) cfg
      (repo_path cfg @ ''/issues/'' @ string_of_nat n @ ''/events'') (query_params []) 1 [] s =
        Some (Inl e, s1) \<longrightarrow>
    listIssueEvents sys cfg n s = Some (Inl e, s1)) \<and>
   (paginate_loop sys (fetch_comments sys) cfg
      (repo_path cfg @ ''/issues/'' @ string_of_nat n @ ''/comments'') (query_params []) 1 [] s =
        Some (Inl e, s1) \<longrightarrow>
    listComments sys cfg n s = Some (Inl e, s1)) \<and>
   (issue_pull_request issue \<and> getPull sys cfg (issue_number issue) s = (Inl e, s1) \<longrightarrow>
    process_issue sys cfg now issue s = Some (Inl e, s1)) \<and>
   (issue_pull_request issue \<and> getPull sys cfg (issue_number issue) s = (Inr pr, s1) \<and>
      pull_base pr = Some b \<and> base_ref b = TARGET_BRANCH cfg \<and>
      listIssueEvents sys cfg (issue_number issue) s1 = Some (Inl e, s2) \<longrightarrow>
    process_issue sys cfg now issue s = Some (Inl e, s2)) \<and>
   (issue_pull_request issue \<and> getPull sys cfg (issue_number issue) s = (Inr pr, s1) \<and>
      pull_base pr = Some b \<and> base_ref b = TARGET_BRANCH cfg \<and>
      listIssueEvents sys cfg (issue_number issue) s1 = Some (Inr events, s2) \<and>
      filter (is_labeled cfg) events \<noteq> [] \<and>
      age = daysBetween now (Max (event_created_at ` set (filter (is_labeled cfg) events))) \<and>
      \<not> less_num (Num age) (AFTER_DAYS cfg) \<and>
      listComments sys cfg (issue_number issue) s2 = Some (Inl e, s3) \<longrightarrow>
    process_issue sys cfg now issue s = Some (Inl e, s3)) \<and>
   (issue_pull_request issue \<and> getPull sys cfg (issue_number issue) s = (Inr pr, s1) \<and>
      pull_base pr = Some b \<and> base_ref b = TARGET_BRANCH cfg \<and>
      listIssueEvents sys cfg (issue_number issue) s1 = Some (Inr events, s2) \<and>
      filter (is_labeled cfg) events \<noteq> [] \<and>
      age = daysBetween now (Max (event_created_at ` set (filter (is_labeled cfg) events))) \<and>
      \<not> less_num (Num age) (AFTER_DAYS cfg) \<and>
      listComments sys cfg (issue_number issue) s2 = Some (Inr comments, s3) \<and>
      recently_reminded cfg now (ourRecent cfg comments) = None \<and>
      createComment sys cfg (issue_number issue)
        (reminder_body cfg (mentions issue b pr) age) s3 = (Inl e, s4) \<longrightarrow>
    process_issue sys cfg now issue s = Some (Inl e, s4)) \<and>
   (for_issues sys cfg now before s = Some (Inr ocs, s1) \<and>
      process_issue sys cfg now issue s1 = Some (Inl e, s2) \<longrightarrow>
    for_issues sys cfg now (before @ issue # rest) s = Some (Inl e, s2)) \<and>
   (listOpenIssuesWithLabel sys cfg (LABEL_NAME cfg)
      (log (LogThreshold (AFTER_DAYS cfg) (EVERY_DAYS cfg))
         (log (LogLabel (LABEL_NAME cfg) (TARGET_BRANCH cfg))
            (log (LogRepo (OWNER cfg) (REPO cfg)) s))) = Some (Inl e, s2) \<longrightarrow>
    run sys cfg s = Some (Inl e, s2)) \<and>
   (listOpenIssuesWithLabel sys cfg (LABEL_NAME cfg)
      (log (LogThreshold (AFTER_DAYS cfg) (EVERY_DAYS cfg))
         (log (LogLabel (LABEL_NAME cfg) (TARGET_BRANCH cfg))
            (log (LogRepo (OWNER cfg) (REPO cfg)) s))) = Some (Inr issues, s2) \<and>
      for_issues sys cfg (date_now sys (world s)) issues s2 = Some (Inl e, s3) \<longrightarrow>
    run sys cfg s = Some (Inl e, s3)) \<and>
   (load_config env = Inr cfg \<and> run sys cfg \<lparr>world = w, trace = []\<rparr> = Some (Inl e, s') \<longrightarrow>
    main sys env w = Some (1, log (LogError (message e)) s')) \<and>
   (load_config env = Inr cfg \<and>
      listOpenIssuesWithLabel sys cfg (LABEL_NAME cfg)
        (log (LogThreshold (AFTER_DAYS cfg) (EVERY_DAYS cfg))
           (log (LogLabel (LABEL_NAME cfg) (TARGET_BRANCH cfg))
              (log (LogRepo (OWNER cfg) (REPO cfg)) \<lparr>world = w, trace = []\<rparr>))) =
          Some (Inl e, s2) \<longrightarrow>
    main sys env w = Some (1, log (LogError (message e)) s2)) \<and>
   (load_config env = Inr cfg \<and>
      listOpenIssuesWithLabel sys cfg (LABEL_NAME cfg)
        (log (LogThreshold (AFTER_DAYS cfg) (EVERY_DAYS cfg))
           (log (LogLabel (LABEL_NAME cfg) (TARGET_BRANCH cfg))
              (log (LogRepo (OWNER cfg) (REPO cfg)) \<lparr>world = w, trace = []\<rparr>))) =
          Some (Inr (before @ issue # rest), s2) \<and>
      for_issues sys cfg (date_now sys w) before s2 = Some (Inr ocs, s3) \<and>
      process_issue sys cfg (date_now sys w) issue s3 = Some (Inl e, s4) \<longrightarrow>
    main sys env w = Some (1, log (LogError (message e)) s4))"
  apply (intro conjI)
  subgoal by (rule impI, elim conjE, erule (2) paginate_loop_failure)
  subgoal by (rule impI, elim conjE, erule (3) paginate_loop_next_page)
  subgoal by (rule impI, elim conjE, erule (1) getPull_failure)
  subgoal by (rule impI, elim conjE, erule (1) createComment_failure)
  subgoal by (rule impI, erule listOpenIssuesWithLabel_error)
  subgoal by (rule impI, erule listIssueEvents_error)
  subgoal by (rule impI, erule listComments_error)
  subgoal by (rule impI, elim conjE, erule (1) process_issue_getPull_error)
  subgoal by (rule impI, elim conjE, erule (4) process_issue_events_error)
  subgoal by (rule impI, elim conjE, erule (8) process_issue_comments_error)
  subgoal by (rule impI, elim conjE, erule (10) process_issue_post_error)
  subgoal by (rule impI, elim conjE, erule (1) for_issues_abort)
  subgoal by (rule impI, erule run_listing_error)
  subgoal by (rule impI, elim conjE, erule (1) run_error)
  subgoal by (rule impI, elim conjE, erule (1) main_error)
  subgoal by (rule impI, elim conjE, erule (1) main_listing_error)
  subgoal by (rule impI, elim conjE, erule (3) main_round_error)
  done

lemma load_demo_env: "load_config demo_env = Inr demo_cfg"
  by (simp add: load_config_def demo_env_def demo_cfg_def or_default_def parseInt_examples)

lemma string_of_nat_42: "string_of_nat 42 = ''42''"
  by code_simp

lemma string_of_nat_500: "string_of_nat 500 = ''500''"
  by code_simp

lemma string_of_nat_403: "string_of_nat 403 = ''403''"
  by code_simp

lemma string_of_nat_503: "string_of_nat 503 = ''503''"
  by code_simp

lemma broken_sys_simps:
  "date_now broken_sys = sim_clock"
  "fetch_issues broken_sys = serve_list [demo_issue, demo_issue\<lparr>issue_number := 43\<rparr>]"
  "fetch_pull broken_sys = serve_value 200 demo_pull"
  "fetch_events broken_sys = serve_list [demo_labeled 3000000]"
  "fetch_comments broken_sys = serve_failure 500 ''boom''"
  by (simp_all add: broken_sys_def sim_sys_def)

text \<open>
  The issues endpoint answers 500, and it answers 403 without the headers of the rate
  limit: the script exits with status 1 after that one request.  It answers the first page
  with a hundred issues and the second with 503: the script exits with status 1 after the
  two requests, and no pull request is looked at.  The comments endpoint
  answers 500 while pull request 42 is processed: the script exits with status 1, and no
  request is made for pull request 43; the same with an issue that is not a pull request
  before 42.  And a round ends with the error when the pull request is not found (404),
  when the events endpoint is down (502), and when the comment is refused (422).
\<close>

theorem request_failure_example:
  "(\<exists>s'. main (broken_sys\<lparr>fetch_issues := serve_failure 500 ''Internal Server Error''\<rparr>) demo_env
        \<lparr>sim_clock = 6000000, sim_script = []\<rparr> = Some (1, s') \<and>
     trace s' =
       [Log (LogRepo ''elastic'' ''rally-tracks''),
        Log (LogLabel ''backport-pending'' ''master''),
        Log (LogThreshold (Num 7) (Num 7)),
        Fetch (page_request demo_cfg ''/repos/elastic/rally-tracks/issues''
                 (query_params [(''state'', ''open''), (''labels'', ''backport-pending'')]) 1),
        Log (LogError ''GET /repos/elastic/rally-tracks/issues failed: 500 Internal Server Error'')]) \<and>
   (\<exists>s'. main (broken_sys\<lparr>fetch_issues := serve_failure 403 ''Forbidden''\<rparr>) demo_env
        \<lparr>sim_clock = 6000000, sim_script = []\<rparr> = Some (1, s') \<and>
     trace s' =
       [Log (LogRepo ''elastic'' ''rally-tracks''),
        Log (LogLabel ''backport-pending'' ''master''),
        Log (LogThreshold (Num 7) (Num 7)),
        Fetch (page_request demo_cfg ''/repos/elastic/rally-tracks/issues''
                 (query_params [(''state'', ''open''), (''labels'', ''backport-pending'')]) 1),
        Log (LogError ''GET /repos/elastic/rally-tracks/issues failed: 403 Forbidden'')]) \<and>
   (\<exists>s'. main (broken_sys\<lparr>fetch_issues :=
                  serve_then_fail (replicate 100 demo_issue) 503 ''Service Unavailable''\<rparr>) demo_env
        \<lparr>sim_clock = 6000000, sim_script = []\<rparr> = Some (1, s') \<and>
     trace s' =
       [Log (LogRepo ''elastic'' ''rally-tracks''),
        Log (LogLabel ''backport-pending'' ''master''),
        Log (LogThreshold (Num 7) (Num 7)),
        Fetch (page_request demo_cfg ''/repos/elastic/rally-tracks/issues''
                 (query_params [(''state'', ''open''), (''labels'', ''backport-pending'')]) 1),
        Fetch (page_request demo_cfg ''/repos/elastic/rally-tracks/issues''
                 (query_params [(''state'', ''open''), (''labels'', ''backport-pending'')]) 2),
        Log (LogError ''GET /repos/elastic/rally-tracks/issues failed: 503 Service Unavailable'')]) \<and>
   (\<exists>s'. main broken_sys demo_env \<lparr>sim_clock = 6000000, sim_script = []\<rparr> = Some (1, s') \<and>
     trace s' =
       [Log (LogRepo ''elastic'' ''rally-tracks''),
        Log (LogLabel ''backport-pending'' ''master''),
        Log (LogThreshold (Num 7) (Num 7)),
        Fetch (page_request demo_cfg ''/repos/elastic/rally-tracks/issues''
                 (query_params [(''state'', ''open''), (''labels'', ''backport-pending'')]) 1),
        Fetch (pull_request demo_cfg 42),
        Fetch (page_request demo_cfg ''/repos/elastic/rally-tracks/issues/42/events''
                 (query_params []) 1),
        Fetch (page_request demo_cfg ''/repos/elastic/rally-tracks/issues/42/comments''
                 (query_params []) 1),
        Log (LogError ''GET /repos/elastic/rally-tracks/issues/42/comments failed: 500 boom'')]) \<and>
   (\<exists>s'. main (broken_sys\<lparr>fetch_issues :=
                  serve_list [demo_issue\<lparr>issue_number := 41, issue_pull_request := False\<rparr>,
                              demo_issue, demo_issue\<lparr>issue_number := 43\<rparr>]\<rparr>) demo_env
        \<lparr>sim_clock = 6000000, sim_script = []\<rparr> = Some (1, s') \<and>
     trace s' =
       [Log (LogRepo ''elastic'' ''rally-tracks''),
        Log (LogLabel ''backport-pending'' ''master''),
        Log (LogThreshold (Num 7) (Num 7)),
        Fetch (page_request demo_cfg ''/repos/elastic/rally-tracks/issues''
                 (query_params [(''state'', ''open''), (''labels'', ''backport-pending'')]) 1),
        Fetch (pull_request demo_cfg 42),
        Fetch (page_request demo_cfg ''/repos/elastic/rally-tracks/issues/42/events''
                 (query_params []) 1),
        Fetch (page_request demo_cfg ''/repos/elastic/rally-tracks/issues/42/comments''
                 (query_params []) 1),
        Log (LogError ''GET /repos/elastic/rally-tracks/issues/42/comments failed: 500 boom'')]) \<and>
   process_issue (broken_sys\<lparr>fetch_pull := serve_failure 404 ''Not Found''\<rparr>) demo_cfg 6000000
      demo_issue demo_start =
    Some (Inl (GetPullFailed 42 404 ''Not Found''),
          fetched (pull_request demo_cfg 42) (world demo_start) demo_start) \<and>
   process_issue (broken_sys\<lparr>fetch_events := serve_failure 502 ''Bad Gateway''\<rparr>) demo_cfg 6000000
      demo_issue demo_start =
    Some (Inl (GetFailed ''/repos/elastic/rally-tracks/issues/42/events'' 502 ''Bad Gateway''),
          fetched (page_request demo_cfg ''/repos/elastic/rally-tracks/issues/42/events''
                     (query_params []) 1)
            (world demo_start) (fetched (pull_request demo_cfg 42) (world demo_start) demo_start)) \<and>
   (\<exists>s'. process_issue
          (broken_sys\<lparr>fetch_comments := serve_list [],
                       fetch_created := serve_failure 422 ''Validation Failed''\<rparr>)
          demo_cfg 6000000 demo_issue demo_start =
        Some (Inl (PostCommentFailed 42 422 ''Validation Failed''), s') \<and>
     trace s' =
       [Fetch (pull_request demo_cfg 42),
        Fetch (page_request demo_cfg ''/repos/elastic/rally-tracks/issues/42/events''
                 (query_params []) 1),
        Fetch (page_request demo_cfg ''/repos/elastic/rally-tracks/issues/42/comments''
                 (query_params []) 1),
        Fetch (comment_request demo_cfg 42
                 (reminder_body demo_cfg
                    (mentions demo_issue
                       \<lparr>base_ref = ''master'', base_repo_owner_login = ''elastic''\<rparr> demo_pull) 10))])"
proof -
  note fatal = request_failure_is_fatal
  note loop_fails = fatal [THEN conjunct1, rule_format]
    and next_page = fatal [THEN conjunct2, THEN conjunct1, rule_format]
    and getPull_fails = fatal [THEN conjunct2, THEN conjunct2, THEN conjunct1, rule_format]
    and createComment_fails = fatal [THEN conjunct2, THEN conjunct2, THEN conjunct2, THEN conjunct1, rule_format]
    and issues_fail = fatal [THEN conjunct2, THEN conjunct2, THEN conjunct2, THEN conjunct2, THEN conjunct1, rule_format]
    and events_fail = fatal [THEN conjunct2, THEN conjunct2, THEN conjunct2, THEN conjunct2, THEN conjunct2, THEN conjunct1, rule_format]
    and comments_fail = fatal [THEN conjunct2, THEN conjunct2, THEN conjunct2, THEN conjunct2, THEN conjunct2, THEN conjunct2, THEN conjunct1, rule_format]
    and round_pull = fatal [THEN conjunct2, THEN conjunct2, THEN conjunct2, THEN conjunct2, THEN conjunct2, THEN conjunct2, THEN conjunct2, THEN conjunct1, rule_format]
    and round_events = fatal [THEN conjunct2, THEN conjunct2, THEN conjunct2, THEN conjunct2, THEN conjunct2, THEN conjunct2, THEN conjunct2, THEN conjunct2, THEN conjunct1, rule_format]
    and round_comments = fatal [THEN conjunct2, THEN conjunct2, THEN conjunct2, THEN conjunct2, THEN conjunct2, THEN conjunct2, THEN conjunct2, THEN conjunct2, THEN conjunct2, THEN conjunct1, rule_format]
    and round_post = fatal [THEN conjunct2, THEN conjunct2, THEN conjunct2, THEN conjunct2, THEN conjunct2, THEN conjunct2, THEN conjunct2, THEN conjunct2, THEN conjunct2, THEN conjunct2, THEN conjunct1, rule_format]
    and loop_aborts = fatal [THEN conjunct2, THEN conjunct2, THEN conjunct2, THEN conjunct2, THEN conjunct2, THEN conjunct2, THEN conjunct2, THEN conjunct2, THEN conjunct2, THEN conjunct2, THEN conjunct2, THEN conjunct1, rule_format]
    and run_listing = fatal [THEN conjunct2, THEN conjunct2, THEN conjunct2, THEN conjunct2, THEN conjunct2, THEN conjunct2, THEN conjunct2, THEN conjunct2, THEN conjunct2, THEN conjunct2, THEN conjunct2, THEN conjunct2, THEN conjunct1, rule_format]
    and run_loop = fatal [THEN conjunct2, THEN conjunct2, THEN conjunct2, THEN conjunct2, THEN conjunct2, THEN conjunct2, THEN conjunct2, THEN conjunct2, THEN conjunct2, THEN conjunct2, THEN conjunct2, THEN conjunct2, THEN conjunct2, THEN conjunct1, rule_format]
    and exit_1 = fatal [THEN conjunct2, THEN conjunct2, THEN conjunct2, THEN conjunct2, THEN conjunct2, THEN conjunct2, THEN conjunct2, THEN conjunct2, THEN conjunct2, THEN conjunct2, THEN conjunct2, THEN conjunct2, THEN conjunct2, THEN conjunct2, THEN conjunct1, rule_format]
    and exit_listing = fatal [THEN conjunct2, THEN conjunct2, THEN conjunct2, THEN conjunct2, THEN conjunct2, THEN conjunct2, THEN conjunct2, THEN conjunct2, THEN conjunct2, THEN conjunct2, THEN conjunct2, THEN conjunct2, THEN conjunct2, THEN conjunct2, THEN conjunct2, THEN conjunct1, rule_format]
    and exit_round = fatal [THEN conjunct2, THEN conjunct2, THEN conjunct2, THEN conjunct2, THEN conjunct2, THEN conjunct2, THEN conjunct2, THEN conjunct2, THEN conjunct2, THEN conjunct2, THEN conjunct2, THEN conjunct2, THEN conjunct2, THEN conjunct2, THEN conjunct2, THEN conjunct2, rule_format]
  let ?w = "\<lparr>sim_clock = 6000000, sim_script = []\<rparr>"
  let ?b = "\<lparr>base_ref = ''master'', base_repo_owner_login = ''elastic''\<rparr>"
  let ?i41 = "demo_issue\<lparr>issue_number := 41, issue_pull_request := False\<rparr>"
  let ?i43 = "demo_issue\<lparr>issue_number := 43\<rparr>"
  let ?ipath = "''/repos/elastic/rally-tracks/issues''"
  let ?epath = "''/repos/elastic/rally-tracks/issues/42/events''"
  let ?cpath = "''/repos/elastic/rally-tracks/issues/42/comments''"
  let ?iq = "query_params [(''state'', ''open''), (''labels'', ''backport-pending'')]"
  define s0 :: "sim state" where "s0 = \<lparr>world = ?w, trace = []\<rparr>"
  define sL where "sL = log (LogThreshold (AFTER_DAYS demo_cfg) (EVERY_DAYS demo_cfg))
         (log (LogLabel (LABEL_NAME demo_cfg) (TARGET_BRANCH demo_cfg))
            (log (LogRepo (OWNER demo_cfg) (REPO demo_cfg)) s0))"
  define sI where "sI = fetched (page_request demo_cfg ?ipath ?iq 1) (world sL) sL"
  have n: "issue_number demo_issue = 42" and pr: "issue_pull_request demo_issue"
    by (simp_all add: demo_issue_def)
  have ip: "repo_path demo_cfg @ ''/issues'' = ?ipath"
    and ep: "repo_path demo_cfg @ ''/issues/'' @ string_of_nat 42 @ ''/events'' = ?epath"
    and cp: "repo_path demo_cfg @ ''/issues/'' @ string_of_nat 42 @ ''/comments'' = ?cpath"
    and label: "LABEL_NAME demo_cfg = ''backport-pending''"
    by (simp_all add: repo_path_def demo_cfg_def string_of_nat_42)
  have b: "base_ref ?b = TARGET_BRANCH demo_cfg"
    by (simp add: demo_cfg_def)
  have h6: "filter (is_labeled demo_cfg) [demo_labeled 3000000] \<noteq> []"
    by (simp add: demo_is_labeled)
  have h7: "10 = daysBetween 6000000
      (Max (event_created_at ` set (filter (is_labeled demo_cfg) [demo_labeled 3000000])))"
    by (simp add: demo_is_labeled demo_labeled_at daysBetween_def)
  have h8: "\<not> less_num (Num 10) (AFTER_DAYS demo_cfg)"
    by (simp add: demo_cfg_def)
  have wL: "world sL = ?w" and trL: "trace sL =
      [Log (LogRepo ''elastic'' ''rally-tracks''),
       Log (LogLabel ''backport-pending'' ''master''),
       Log (LogThreshold (Num 7) (Num 7))]"
    by (simp_all add: sL_def s0_def log_def trace_log demo_cfg_def)
  have listing: "listOpenIssuesWithLabel (broken_sys\<lparr>fetch_issues := serve_failure st t\<rparr>) demo_cfg
        (LABEL_NAME demo_cfg) sL = Some (Inl (GetFailed ?ipath st t), sI)"
    if st: "300 \<le> st" for st t
  proof -
    let ?sys = "broken_sys\<lparr>fetch_issues := serve_failure st t\<rparr>"
    let ?res = "respond st t Malformed :: issue listing response"
    have "fetch_issues ?sys (page_request demo_cfg ?ipath ?iq 1) (world sL) = (?res, world sL) \<and>
        \<not> ok ?res \<and> \<not> (res_status ?res = 403 \<and> res_remaining ?res = Some ''0'')"
      using st by (simp add: serve_failure_def respond_simps ok_def)
    from loop_fails [where fetch = "fetch_issues ?sys" and sys = ?sys and results = "[]", OF this]
    have "paginate_loop ?sys (fetch_issues ?sys) demo_cfg (repo_path demo_cfg @ ''/issues'')
        (query_params [(''state'', ''open''), (''labels'', LABEL_NAME demo_cfg)]) 1 [] sL =
        Some (Inl (GetFailed ?ipath st t), sI)"
      unfolding ip label by (simp add: sI_def respond_simps)
    from issues_fail [OF this]
    show ?thesis .
  qed
  have trI: "trace (log (LogError (message (GetFailed ?ipath st t))) sI) =
      [Log (LogRepo ''elastic'' ''rally-tracks''),
       Log (LogLabel ''backport-pending'' ''master''),
       Log (LogThreshold (Num 7) (Num 7)),
       Fetch (page_request demo_cfg ?ipath ?iq 1),
       Log (LogError (''GET /repos/elastic/rally-tracks/issues failed: '' @ string_of_nat st @ '' '' @ t))]"
    for st t
    by (simp add: sI_def trace_fetched trace_log trL)
  have W1: "\<exists>s'. main (broken_sys\<lparr>fetch_issues := serve_failure 500 ''Internal Server Error''\<rparr>) demo_env
        ?w = Some (1, s') \<and>
     trace s' =
       [Log (LogRepo ''elastic'' ''rally-tracks''),
        Log (LogLabel ''backport-pending'' ''master''),
        Log (LogThreshold (Num 7) (Num 7)),
        Fetch (page_request demo_cfg ?ipath ?iq 1),
        Log (LogError ''GET /repos/elastic/rally-tracks/issues failed: 500 Internal Server Error'')]"
  proof -
    let ?sys = "broken_sys\<lparr>fetch_issues := serve_failure 500 ''Internal Server Error''\<rparr>"
    let ?e = "GetFailed ?ipath 500 ''Internal Server Error''"
    have l: "listOpenIssuesWithLabel ?sys demo_cfg (LABEL_NAME demo_cfg) sL = Some (Inl ?e, sI)"
      by (rule listing) simp
    from exit_listing [OF conjI [OF load_demo_env l [unfolded sL_def s0_def]]]
    have "main ?sys demo_env ?w = Some (1, log (LogError (message ?e)) sI)" .
    moreover have "trace (log (LogError (message ?e)) sI) =
       [Log (LogRepo ''elastic'' ''rally-tracks''),
        Log (LogLabel ''backport-pending'' ''master''),
        Log (LogThreshold (Num 7) (Num 7)),
        Fetch (page_request demo_cfg ?ipath ?iq 1),
        Log (LogError ''GET /repos/elastic/rally-tracks/issues failed: 500 Internal Server Error'')]"
      unfolding trI by (simp add: string_of_nat_500)
    ultimately show ?thesis by blast
  qed
  have W2: "\<exists>s'. main (broken_sys\<lparr>fetch_issues := serve_failure 403 ''Forbidden''\<rparr>) demo_env
        ?w = Some (1, s') \<and>
     trace s' =
       [Log (LogRepo ''elastic'' ''rally-tracks''),
        Log (LogLabel ''backport-pending'' ''master''),
        Log (LogThreshold (Num 7) (Num 7)),
        Fetch (page_request demo_cfg ?ipath ?iq 1),
        Log (LogError ''GET /repos/elastic/rally-tracks/issues failed: 403 Forbidden'')]"
  proof -
    let ?sys = "broken_sys\<lparr>fetch_issues := serve_failure 403 ''Forbidden''\<rparr>"
    let ?e = "GetFailed ?ipath 403 ''Forbidden''"
    have l: "listOpenIssuesWithLabel ?sys demo_cfg (LABEL_NAME demo_cfg) sL = Some (Inl ?e, sI)"
      by (rule listing) simp
    from run_listing [OF l [unfolded sL_def]]
    have "run ?sys demo_cfg \<lparr>world = ?w, trace = []\<rparr> = Some (Inl ?e, sI)"
      by (simp add: s0_def)
    from exit_1 [OF conjI [OF load_demo_env this]]
    have "main ?sys demo_env ?w = Some (1, log (LogError (message ?e)) sI)" .
    moreover have "trace (log (LogError (message ?e)) sI) =
       [Log (LogRepo ''elastic'' ''rally-tracks''),
        Log (LogLabel ''backport-pending'' ''master''),
        Log (LogThreshold (Num 7) (Num 7)),
        Fetch (page_request demo_cfg ?ipath ?iq 1),
        Log (LogError ''GET /repos/elastic/rally-tracks/issues failed: 403 Forbidden'')]"
      unfolding trI by (simp add: string_of_nat_403)
    ultimately show ?thesis by blast
  qed

  have W3: "\<exists>s'. main (broken_sys\<lparr>fetch_issues :=
                  serve_then_fail (replicate 100 demo_issue) 503 ''Service Unavailable''\<rparr>) demo_env
        ?w = Some (1, s') \<and>
     trace s' =
       [Log (LogRepo ''elastic'' ''rally-tracks''),
        Log (LogLabel ''backport-pending'' ''master''),
        Log (LogThreshold (Num 7) (Num 7)),
        Fetch (page_request demo_cfg ?ipath ?iq 1),
        Fetch (page_request demo_cfg ?ipath ?iq 2),
        Log (LogError ''GET /repos/elastic/rally-tracks/issues failed: 503 Service Unavailable'')]"
  proof -
    let ?f = "serve_then_fail (replicate 100 demo_issue) 503 ''Service Unavailable'' ::
        request \<Rightarrow> sim \<Rightarrow> issue listing response \<times> sim"
    let ?sys = "broken_sys\<lparr>fetch_issues := ?f\<rparr>"
    let ?e = "GetFailed ?ipath 503 ''Service Unavailable''"
    let ?qp1 = "AList.update ''page'' (string_of_nat 1) ?iq"
    let ?full = "respond 200 [] (Json (Array (replicate 100 demo_issue))) :: issue listing response"
    let ?down = "respond 503 ''Service Unavailable'' Malformed :: issue listing response"
    define sI2 where "sI2 = fetched (page_request demo_cfg ?ipath ?iq 2) (world sI) sI"
    have "?f (page_request demo_cfg ?ipath ?qp1 (1 + 1)) (world sI) = (?down, world sI) \<and>
        \<not> ok ?down \<and> \<not> (res_status ?down = 403 \<and> res_remaining ?down = Some ''0'')"
      by (simp add: serve_then_fail_def query_nat_page_request serve_failure_def respond_simps)
    from loop_fails [where fetch = ?f and sys = ?sys
        and results = "[] @ replicate 100 demo_issue", OF this]
    have second: "paginate_loop ?sys ?f demo_cfg ?ipath ?qp1 (1 + 1) ([] @ replicate 100 demo_issue) sI =
        Some (Inl ?e, sI2)"
      by (simp add: page_request_update sI2_def respond_simps numeral_2_eq_2)
    have "?f (page_request demo_cfg ?ipath ?iq 1) (world sL) = (?full, world sL) \<and>
        ok ?full \<and> res_json ?full = Json (Array (replicate 100 demo_issue)) \<and>
        100 \<le> length (replicate 100 demo_issue)"
      by (simp add: serve_then_fail_def query_nat_page_request serve_pages_page_request
          respond_simps)
    from next_page [where fetch = ?f and sys = ?sys and results = "[]", OF this]
    have "paginate_loop ?sys ?f demo_cfg ?ipath ?iq 1 [] sL =
        paginate_loop ?sys ?f demo_cfg ?ipath ?qp1 (1 + 1) ([] @ replicate 100 demo_issue) sI"
      unfolding sI_def .
    with second have "paginate_loop ?sys ?f demo_cfg ?ipath ?iq 1 [] sL = Some (Inl ?e, sI2)"
      by simp
    then have "paginate_loop ?sys (fetch_issues ?sys) demo_cfg (repo_path demo_cfg @ ''/issues'')
        (query_params [(''state'', ''open''), (''labels'', LABEL_NAME demo_cfg)]) 1 [] sL =
        Some (Inl ?e, sI2)"
      unfolding ip label by simp
    from issues_fail [OF this]
    have l: "listOpenIssuesWithLabel ?sys demo_cfg (LABEL_NAME demo_cfg) sL = Some (Inl ?e, sI2)" .
    from exit_listing [OF conjI [OF load_demo_env l [unfolded sL_def s0_def]]]
    have "main ?sys demo_env ?w = Some (1, log (LogError (message ?e)) sI2)" .
    moreover have "trace (log (LogError (message ?e)) sI2) =
       [Log (LogRepo ''elastic'' ''rally-tracks''),
        Log (LogLabel ''backport-pending'' ''master''),
        Log (LogThreshold (Num 7) (Num 7)),
        Fetch (page_request demo_cfg ?ipath ?iq 1),
        Fetch (page_request demo_cfg ?ipath ?iq 2),
        Log (LogError ''GET /repos/elastic/rally-tracks/issues failed: 503 Service Unavailable'')]"
      by (simp add: sI2_def sI_def trace_fetched trace_log trL string_of_nat_503)
    ultimately show ?thesis by blast
  qed

  have round: "process_issue sys demo_cfg 6000000 demo_issue s =
      Some (Inl (GetFailed ?cpath 500 ''boom''),
            fetched (page_request demo_cfg ?cpath (query_params []) 1) (world s)
              (fetched (page_request demo_cfg ?epath (query_params []) 1) (world s)
                 (fetched (pull_request demo_cfg 42) (world s) s)))"
    if sys: "fetch_pull sys = serve_value 200 demo_pull"
      "fetch_events sys = serve_list [demo_labeled 3000000]"
      "fetch_comments sys = serve_failure 500 ''boom''"
    for sys :: "sim sys" and s
  proof -
    let ?res = "respond 500 ''boom'' Malformed :: comment listing response"
    define sP where "sP = fetched (pull_request demo_cfg 42) (world s) s"
    define sE where "sE = fetched (page_request demo_cfg ?epath (query_params []) 1) (world s) sP"
    have pull: "getPull sys demo_cfg (issue_number demo_issue) s = (Inr demo_pull, sP)"
      unfolding sP_def n by (rule getPull_served) (rule sys(1))
    have events: "listIssueEvents sys demo_cfg (issue_number demo_issue) sP =
        Some (Inr [demo_labeled 3000000], sE)"
      unfolding n sE_def
      using listIssueEvents_served [where sys = sys and cfg = demo_cfg and n = 42 and s = sP,
          OF sys(2), unfolded ep]
      by (simp add: sP_def world_fetched)
    have "fetch_comments sys (page_request demo_cfg ?cpath (query_params []) 1) (world sE) =
        (?res, world sE) \<and>
        \<not> ok ?res \<and> \<not> (res_status ?res = 403 \<and> res_remaining ?res = Some ''0'')"
      by (simp add: sys(3) serve_failure_def respond_simps)
    from loop_fails [where fetch = "fetch_comments sys" and sys = sys and results = "[]", OF this]
    have "paginate_loop sys (fetch_comments sys) demo_cfg
        (repo_path demo_cfg @ ''/issues/'' @ string_of_nat (issue_number demo_issue) @ ''/comments'')
        (query_params []) 1 [] sE =
        Some (Inl (GetFailed ?cpath 500 ''boom''),
              fetched (page_request demo_cfg ?cpath (query_params []) 1) (world s) sE)"
      unfolding n cp by (simp add: respond_simps sE_def world_fetched)
    from comments_fail [OF this]
    have comments: "listComments sys demo_cfg (issue_number demo_issue) sE =
        Some (Inl (GetFailed ?cpath 500 ''boom''),
              fetched (page_request demo_cfg ?cpath (query_params []) 1) (world s) sE)" .
    from round_comments [OF conjI [OF pr conjI [OF pull conjI [OF demo_pull_base conjI [OF b
        conjI [OF events conjI [OF h6 conjI [OF h7 conjI [OF h8 comments]]]]]]]]]
    show ?thesis
      by (simp add: sE_def sP_def)
  qed
  have trC: "trace (log (LogError (message (GetFailed ?cpath 500 ''boom'')))
         (fetched (page_request demo_cfg ?cpath (query_params []) 1) (world sI)
            (fetched (page_request demo_cfg ?epath (query_params []) 1) (world sI)
               (fetched (pull_request demo_cfg 42) (world sI) sI)))) =
       [Log (LogRepo ''elastic'' ''rally-tracks''),
        Log (LogLabel ''backport-pending'' ''master''),
        Log (LogThreshold (Num 7) (Num 7)),
        Fetch (page_request demo_cfg ?ipath ?iq 1),
        Fetch (pull_request demo_cfg 42),
        Fetch (page_request demo_cfg ?epath (query_params []) 1),
        Fetch (page_request demo_cfg ?cpath (query_params []) 1),
        Log (LogError ''GET /repos/elastic/rally-tracks/issues/42/comments failed: 500 boom'')]"
    by (simp add: sI_def trace_fetched trace_log trL string_of_nat_500)
  have A: "\<exists>s'. main broken_sys demo_env ?w = Some (1, s') \<and>
     trace s' =
       [Log (LogRepo ''elastic'' ''rally-tracks''),
        Log (LogLabel ''backport-pending'' ''master''),
        Log (LogThreshold (Num 7) (Num 7)),
        Fetch (page_request demo_cfg ?ipath ?iq 1),
        Fetch (pull_request demo_cfg 42),
        Fetch (page_request demo_cfg ?epath (query_params []) 1),
        Fetch (page_request demo_cfg ?cpath (query_params []) 1),
        Log (LogError ''GET /repos/elastic/rally-tracks/issues/42/comments failed: 500 boom'')]"
  proof -
    let ?e = "GetFailed ?cpath 500 ''boom''"
    let ?sC = "fetched (page_request demo_cfg ?cpath (query_params []) 1) (world sI)
            (fetched (page_request demo_cfg ?epath (query_params []) 1) (world sI)
               (fetched (pull_request demo_cfg 42) (world sI) sI))"
    have issues: "listOpenIssuesWithLabel broken_sys demo_cfg (LABEL_NAME demo_cfg) sL =
        Some (Inr [demo_issue, ?i43], sI)"
      unfolding sI_def
      using listOpenIssuesWithLabel_served [where sys = broken_sys and cfg = demo_cfg
          and label = "LABEL_NAME demo_cfg" and s = sL, OF broken_sys_simps(2),
          unfolded ip label]
      by (simp add: broken_sys_simps label)
    have r: "process_issue broken_sys demo_cfg 6000000 demo_issue sI = Some (Inl ?e, ?sC)"
      by (rule round) (simp_all add: broken_sys_simps)
    have "for_issues broken_sys demo_cfg 6000000 ([] @ demo_issue # [?i43]) sI = Some (Inl ?e, ?sC)"
      by (rule loop_aborts [where before = "[]" and ocs = "[]" and ?s1.0 = sI]) (simp add: r)
    then have loop: "for_issues broken_sys demo_cfg (date_now broken_sys (world s0))
        [demo_issue, ?i43] sI = Some (Inl ?e, ?sC)"
      by (simp add: broken_sys_simps s0_def)
    have "run broken_sys demo_cfg s0 = Some (Inl ?e, ?sC)"
      by (rule run_loop [OF conjI [OF issues [unfolded sL_def] loop]])
    then have "run broken_sys demo_cfg \<lparr>world = ?w, trace = []\<rparr> = Some (Inl ?e, ?sC)"
      by (simp add: s0_def)
    from exit_1 [OF conjI [OF load_demo_env this]]
    have "main broken_sys demo_env ?w = Some (1, log (LogError (message ?e)) ?sC)" .
    with trC show ?thesis by blast
  qed
  have A2: "\<exists>s'. main (broken_sys\<lparr>fetch_issues := serve_list [?i41, demo_issue, ?i43]\<rparr>) demo_env
        ?w = Some (1, s') \<and>
     trace s' =
       [Log (LogRepo ''elastic'' ''rally-tracks''),
        Log (LogLabel ''backport-pending'' ''master''),
        Log (LogThreshold (Num 7) (Num 7)),
        Fetch (page_request demo_cfg ?ipath ?iq 1),
        Fetch (pull_request demo_cfg 42),
        Fetch (page_request demo_cfg ?epath (query_params []) 1),
        Fetch (page_request demo_cfg ?cpath (query_params []) 1),
        Log (LogError ''GET /repos/elastic/rally-tracks/issues/42/comments failed: 500 boom'')]"
  proof -
    let ?sys = "broken_sys\<lparr>fetch_issues := serve_list [?i41, demo_issue, ?i43]\<rparr>"
    let ?e = "GetFailed ?cpath 500 ''boom''"
    let ?sC = "fetched (page_request demo_cfg ?cpath (query_params []) 1) (world sI)
            (fetched (page_request demo_cfg ?epath (query_params []) 1) (world sI)
               (fetched (pull_request demo_cfg 42) (world sI) sI))"
    have fi: "fetch_issues ?sys = serve_list [?i41, demo_issue, ?i43]"
      by simp
    have clock: "date_now ?sys ?w = 6000000"
      by (simp add: broken_sys_simps)
    have issues: "listOpenIssuesWithLabel ?sys demo_cfg (LABEL_NAME demo_cfg) sL =
        Some (Inr ([?i41] @ demo_issue # [?i43]), sI)"
      unfolding sI_def
      using listOpenIssuesWithLabel_served [where sys = ?sys and cfg = demo_cfg
          and label = "LABEL_NAME demo_cfg" and s = sL, OF fi, unfolded ip label]
      by (simp add: label)
    have before: "for_issues ?sys demo_cfg (date_now ?sys ?w) [?i41] sI =
        Some (Inr [NotPullRequest], sI)"
      by (simp add: process_issue_def)
    have r: "process_issue ?sys demo_cfg (date_now ?sys ?w) demo_issue sI = Some (Inl ?e, ?sC)"
      unfolding clock by (rule round) (simp_all add: broken_sys_simps)
    from exit_round [OF conjI [OF load_demo_env
        conjI [OF issues [unfolded sL_def s0_def] conjI [OF before r]]]]
    have "main ?sys demo_env ?w = Some (1, log (LogError (message ?e)) ?sC)" .
    with trC show ?thesis by blast
  qed
  have B: "process_issue (broken_sys\<lparr>fetch_pull := serve_failure 404 ''Not Found''\<rparr>) demo_cfg 6000000
      demo_issue demo_start =
    Some (Inl (GetPullFailed 42 404 ''Not Found''),
          fetched (pull_request demo_cfg 42) (world demo_start) demo_start)"
  proof -
    let ?sys = "broken_sys\<lparr>fetch_pull := serve_failure 404 ''Not Found''\<rparr>"
    have "fetch_pull ?sys (pull_request demo_cfg 42) (world demo_start) =
        (respond 404 ''Not Found'' Malformed, world demo_start) \<and>
        \<not> ok (respond 404 ''Not Found'' Malformed :: pull response)"
      by (simp add: serve_failure_def respond_simps)
    from getPull_fails [OF this]
    have "issue_pull_request demo_issue \<and>
        getPull ?sys demo_cfg (issue_number demo_issue) demo_start =
          (Inl (GetPullFailed 42 404 ''Not Found''),
           fetched (pull_request demo_cfg 42) (world demo_start) demo_start)"
      by (simp add: n pr respond_simps)
    from round_pull [OF this]
    show ?thesis .
  qed
  have C: "process_issue (broken_sys\<lparr>fetch_events := serve_failure 502 ''Bad Gateway''\<rparr>) demo_cfg 6000000
      demo_issue demo_start =
    Some (Inl (GetFailed ?epath 502 ''Bad Gateway''),
          fetched (page_request demo_cfg ?epath (query_params []) 1)
            (world demo_start) (fetched (pull_request demo_cfg 42) (world demo_start) demo_start))"
  proof -
    let ?sys = "broken_sys\<lparr>fetch_events := serve_failure 502 ''Bad Gateway''\<rparr>"
    let ?res = "respond 502 ''Bad Gateway'' Malformed :: ievent listing response"
    let ?s1 = "fetched (pull_request demo_cfg 42) (world demo_start) demo_start"
    have g: "getPull ?sys demo_cfg (issue_number demo_issue) demo_start = (Inr demo_pull, ?s1)"
      unfolding n by (rule getPull_served) (simp add: broken_sys_simps)
    have "fetch_events ?sys (page_request demo_cfg ?epath (query_params []) 1) (world ?s1) =
        (?res, world ?s1) \<and>
        \<not> ok ?res \<and> \<not> (res_status ?res = 403 \<and> res_remaining ?res = Some ''0'')"
      by (simp add: serve_failure_def respond_simps)
    from loop_fails [where fetch = "fetch_events ?sys" and sys = ?sys and results = "[]", OF this]
    have "paginate_loop ?sys (fetch_events ?sys) demo_cfg
        (repo_path demo_cfg @ ''/issues/'' @ string_of_nat (issue_number demo_issue) @ ''/events'')
        (query_params []) 1 [] ?s1 =
        Some (Inl (GetFailed ?epath 502 ''Bad Gateway''),
              fetched (page_request demo_cfg ?epath (query_params []) 1) (world demo_start) ?s1)"
      unfolding n ep by (simp add: respond_simps world_fetched)
    from events_fail [OF this]
    have l: "listIssueEvents ?sys demo_cfg (issue_number demo_issue) ?s1 =
        Some (Inl (GetFailed ?epath 502 ''Bad Gateway''),
              fetched (page_request demo_cfg ?epath (query_params []) 1) (world demo_start) ?s1)" .
    from round_events [OF conjI [OF pr conjI [OF g conjI [OF demo_pull_base conjI [OF b l]]]]]
    show ?thesis .
  qed
  have D: "\<exists>s'. process_issue
          (broken_sys\<lparr>fetch_comments := serve_list [],
                       fetch_created := serve_failure 422 ''Validation Failed''\<rparr>)
          demo_cfg 6000000 demo_issue demo_start =
        Some (Inl (PostCommentFailed 42 422 ''Validation Failed''), s') \<and>
     trace s' =
       [Fetch (pull_request demo_cfg 42),
        Fetch (page_request demo_cfg ?epath (query_params []) 1),
        Fetch (page_request demo_cfg ?cpath (query_params []) 1),
        Fetch (comment_request demo_cfg 42 (reminder_body demo_cfg (mentions demo_issue ?b demo_pull) 10))]"
  proof -
    let ?sys = "broken_sys\<lparr>fetch_comments := serve_list [],
        fetch_created := serve_failure 422 ''Validation Failed''\<rparr>"
    let ?body = "reminder_body demo_cfg (mentions demo_issue ?b demo_pull) 10"
    let ?res = "respond 422 ''Validation Failed'' Malformed :: unit response"
    define sP where "sP = fetched (pull_request demo_cfg 42) (world demo_start) demo_start"
    define sE where "sE = fetched (page_request demo_cfg ?epath (query_params []) 1) (world sP) sP"
    define sC where "sC = fetched (page_request demo_cfg ?cpath (query_params []) 1) (world sE) sE"
    have fe: "fetch_events ?sys = serve_list [demo_labeled 3000000]"
      and fc: "fetch_comments ?sys = serve_list []"
      by (simp_all add: broken_sys_simps)
    have pull: "getPull ?sys demo_cfg (issue_number demo_issue) demo_start = (Inr demo_pull, sP)"
      unfolding n sP_def by (rule getPull_served) (simp add: broken_sys_simps)
    have events: "listIssueEvents ?sys demo_cfg (issue_number demo_issue) sP =
        Some (Inr [demo_labeled 3000000], sE)"
      unfolding n sE_def
      using listIssueEvents_served [where sys = ?sys and cfg = demo_cfg and n = 42 and s = sP,
          OF fe, unfolded ep]
      by simp
    have comments: "listComments ?sys demo_cfg (issue_number demo_issue) sE = Some (Inr [], sC)"
      unfolding n sC_def
      using listComments_served [where sys = ?sys and cfg = demo_cfg and n = 42 and s = sE,
          OF fc, unfolded cp]
      by simp
    have none: "recently_reminded demo_cfg 6000000 (ourRecent demo_cfg []) = None"
      by (simp add: ourRecent_def recently_reminded_def)
    have "fetch_created ?sys (comment_request demo_cfg 42 ?body) (world sC) = (?res, world sC) \<and>
        \<not> ok ?res"
      by (simp add: serve_failure_def respond_simps)
    from createComment_fails [OF this]
    have post: "createComment ?sys demo_cfg (issue_number demo_issue) ?body sC =
        (Inl (PostCommentFailed 42 422 ''Validation Failed''),
         fetched (comment_request demo_cfg 42 ?body) (world sC) sC)"
      by (simp add: n respond_simps)
    from round_post [OF conjI [OF pr conjI [OF pull conjI [OF demo_pull_base conjI [OF b
        conjI [OF events conjI [OF h6 conjI [OF h7 conjI [OF h8 conjI [OF comments
        conjI [OF none post]]]]]]]]]]]
    have "process_issue ?sys demo_cfg 6000000 demo_issue demo_start =
        Some (Inl (PostCommentFailed 42 422 ''Validation Failed''),
              fetched (comment_request demo_cfg 42 ?body) (world sC) sC)" .
    moreover have "trace (fetched (comment_request demo_cfg 42 ?body) (world sC) sC) =
       [Fetch (pull_request demo_cfg 42),
        Fetch (page_request demo_cfg ?epath (query_params []) 1),
        Fetch (page_request demo_cfg ?cpath (query_params []) 1),
        Fetch (comment_request demo_cfg 42 ?body)]"
      by (simp add: sC_def sE_def sP_def trace_fetched demo_start_def)
    ultimately show ?thesis by blast
  qed
  from W1 W2 W3 A A2 B C D show ?thesis
    by (intro conjI)
qed

subsection \<open>An unreadable threshold\<close>

lemma less_num_NaN: "\<not> less_num a NaN"
  by (cases a) simp_all

text \<open>
  An empty \<open>REMIND_AFTER_DAYS\<close> is a string that \<open>parseInt\<close> cannot read, and yet the
  threshold is the default 7 and not \<open>NaN\<close>: the empty string is falsy, so that
  \<open>process.env.REMIND_AFTER_DAYS || "7"\<close> is \<open>"7"\<close>.  Then an age of 6 is skipped.
\<close>

theorem empty_threshold_is_default:
  "parseInt [] = NaN \<and>
   load_config (demo_env\<lparr>env_REMIND_AFTER_DAYS := Some []\<rparr>) = Inr demo_cfg \<and>
   AFTER_DAYS demo_cfg = Num 7 \<and> less_num (Num 6) (AFTER_DAYS demo_cfg)"
  by (simp add: load_config_def demo_env_def demo_cfg_def or_default_def parseInt_examples)

lemma load_config_threshold:
  assumes "load_config e = Inr cfg" and "v \<noteq> []"
  shows "load_config (e\<lparr>env_REMIND_AFTER_DAYS := Some v\<rparr>) = Inr (cfg\<lparr>AFTER_DAYS := parseInt v\<rparr>)"
  using assms
  by (auto simp add: load_config_def Let_def or_default_def split: if_splits)

text \<open>
  Claim C9, for a value that is not empty.  If \<open>REMIND_AFTER_DAYS\<close> is set to a non-empty
  string in which \<open>parseInt\<close> finds no integer, the configuration is still read, the
  threshold is \<open>NaN\<close>, the comparison \<open>age < threshold\<close> is false for every age, and every
  candidate that reaches the age test goes on to the comments, whatever the age of its
  label.
\<close>

theorem unreadable_threshold_never_skips:
  assumes "load_config e = Inr cfg0" and "v \<noteq> []" and "parseInt v = NaN"
    and "cfg = cfg0\<lparr>AFTER_DAYS := NaN\<rparr>"
    and "issue_pull_request issue"
    and "getPull sys cfg (issue_number issue) s = (Inr pr, s1)"
    and "pull_base pr = Some b" and "base_ref b = TARGET_BRANCH cfg"
    and "listIssueEvents sys cfg (issue_number issue) s1 = Some (Inr events, s2)"
    and "filter (is_labeled cfg) events \<noteq> []"
    and "age = daysBetween now (Max (event_created_at ` set (filter (is_labeled cfg) events)))"
  shows "load_config (e\<lparr>env_REMIND_AFTER_DAYS := Some v\<rparr>) = Inr cfg \<and>
    AFTER_DAYS cfg = NaN \<and>
    (\<forall>a. \<not> less_num (Num a) (AFTER_DAYS cfg)) \<and>
    process_issue sys cfg now issue s = remind sys cfg now issue b pr age s2"
proof -
  have "load_config (e\<lparr>env_REMIND_AFTER_DAYS := Some v\<rparr>) = Inr cfg"
    using load_config_threshold [OF assms(1,2)] assms(3,4) by simp
  moreover have n: "AFTER_DAYS cfg = NaN"
    using assms(4) by simp
  moreover have "process_issue sys cfg now issue s = remind sys cfg now issue b pr age s2"
    using process_issue_age_test [OF assms(5-11)] by (simp add: n)
  ultimately show ?thesis
    by (simp add: less_num_NaN)
qed


lemma remind_no_reminder_yet:
  assumes "listComments sys cfg (issue_number issue) s = Some (Inr comments, s1)"
    and "filter (is_ours cfg) comments = []"
  shows "remind sys cfg now issue b pr age s = post_reminder sys cfg issue b pr age s1"
proof -
  from assms(2) have "ourRecent cfg comments = []"
    by (simp add: ourRecent_Nil)
  with assms(1) show ?thesis
    by (simp add: remind_def recently_reminded_def)
qed

lemma post_reminder_served:
  assumes "fetch_created sys = serve_value 201 ()"
  shows "post_reminder sys cfg issue b pr age s =
     Some (Inr (Reminded age (reminder_body cfg (mentions issue b pr) age)),
       sleep sys 200 (log (LogPosted (issue_number issue) age)
         (fetched (comment_request cfg (issue_number issue)
            (reminder_body cfg (mentions issue b pr) age)) (world s) s)))"
  by (simp add: post_reminder_def createComment_served [OF assms] Let_def)

text \<open>With the threshold \<open>soon\<close>, a label applied this instant is reminded of at once.\<close>

theorem unreadable_threshold_example:
  "load_config (demo_env\<lparr>env_REMIND_AFTER_DAYS := Some ''soon''\<rparr>) = Inr (demo_cfg\<lparr>AFTER_DAYS := NaN\<rparr>) \<and>
   (\<exists>s'. process_issue (sim_sys [demo_issue] demo_pull [demo_labeled 6000000] [])
        (demo_cfg\<lparr>AFTER_DAYS := NaN\<rparr>) 6000000 demo_issue demo_start =
      Some (Inr (Reminded 0 (reminder_body (demo_cfg\<lparr>AFTER_DAYS := NaN\<rparr>)
        (mentions demo_issue \<lparr>base_ref = ''master'', base_repo_owner_login = ''elastic''\<rparr> demo_pull) 0)),
        s'))"
proof -
  let ?cfg = "demo_cfg\<lparr>AFTER_DAYS := NaN\<rparr>"
  let ?b = "\<lparr>base_ref = ''master'', base_repo_owner_login = ''elastic''\<rparr>"
  let ?sys = "sim_sys [demo_issue] demo_pull [demo_labeled 6000000] []"
  have h2: "''soon'' \<noteq> []" by simp
  have h3: "parseInt ''soon'' = NaN"
    by (simp add: parseInt_examples)
  have h5: "issue_pull_request demo_issue"
    by (simp add: demo_issue_def)
  have h8: "base_ref ?b = TARGET_BRANCH ?cfg"
    by (simp add: demo_cfg_def)
  have l: "is_labeled ?cfg (demo_labeled t)" for t
    by (simp add: is_labeled_def demo_cfg_def demo_labeled_def)
  have h10: "filter (is_labeled ?cfg) [demo_labeled 6000000] \<noteq> []"
    by (simp add: l)
  have h11: "0 = daysBetween 6000000
      (Max (event_created_at ` set (filter (is_labeled ?cfg) [demo_labeled 6000000])))"
    by (simp add: l demo_labeled_at daysBetween_def)
  note t = unreadable_threshold_never_skips [OF load_demo_env h2 h3 refl h5 getPull_sim demo_pull_base
      h8 listIssueEvents_sim h10 h11, of "[demo_issue]" "[]" demo_start]
  have "remind ?sys ?cfg 6000000 demo_issue ?b demo_pull 0 s =
      post_reminder ?sys ?cfg demo_issue ?b demo_pull 0
        (fetched (page_request ?cfg
          (repo_path ?cfg @ ''/issues/'' @ string_of_nat (issue_number demo_issue) @ ''/comments'')
          (query_params []) 1) (world s) s)" for s
    by (rule remind_no_reminder_yet [OF listComments_sim]) simp_all
  with t show ?thesis
    by (simp add: post_reminder_served sim_sys_simps)
qed

subsection \<open>Mentions\<close>

lemma author_sources:
  "filter (\<lambda>m. m \<noteq> []) [author issue] =
     map ((@) ''@'')
       (case issue_user issue of
          None \<Rightarrow> []
        | Some u \<Rightarrow> (case user_login u of None \<Rightarrow> [] | Some l \<Rightarrow> if l = [] then [] else [l]))"
  by (simp add: author_def split: option.splits)

lemma filter_mentions: "filter (\<lambda>m. m \<noteq> []) (map ((@) ''@'') xs) = map ((@) ''@'') xs"
  by (induction xs) simp_all

lemma requestedUsers_sources:
  "requestedUsers pr =
     map ((@) ''@'')
       (case requested_reviewers pr of
          None \<Rightarrow> []
        | Some us \<Rightarrow> map (\<lambda>u. case user_login u of None \<Rightarrow> ''undefined'' | Some l \<Rightarrow> l) us)"
  by (simp add: requestedUsers_def split: option.splits)

lemma requestedTeams_sources:
  "requestedTeams b pr =
     map ((@) ''@'')
       (case requested_teams pr of
          None \<Rightarrow> []
        | Some ts \<Rightarrow> map (\<lambda>t. base_repo_owner_login b @ ''/'' @ team_slug t) ts)"
  by (simp add: requestedTeams_def split: option.splits)

lemma mention_list_sources:
  "mention_list issue b pr = map ((@) ''@'') (mention_sources issue b pr)"
proof -
  have "mention_list issue b pr =
      filter (\<lambda>m. m \<noteq> []) [author issue] @
      filter (\<lambda>m. m \<noteq> []) (requestedUsers pr) @ filter (\<lambda>m. m \<noteq> []) (requestedTeams b pr)"
    by (simp add: mention_list_def)
  also have "\<dots> = map ((@) ''@'') (mention_sources issue b pr)"
    unfolding author_sources
    by (subst requestedUsers_sources, subst requestedTeams_sources)
      (simp only: filter_mentions mention_sources_def map_append)
  finally show ?thesis .
qed

text \<open>
  The script removes nothing but an empty author from the list of mentions: a reviewer
  who is requested twice is mentioned twice.
\<close>

theorem duplicate_reviewer_is_mentioned_twice:
  "mention_sources demo_issue \<lparr>base_ref = ''master'', base_repo_owner_login = ''elastic''\<rparr> twice_pull =
     [''alice'', ''bob'', ''bob'', ''elastic/perf''] \<and>
   mention_list demo_issue \<lparr>base_ref = ''master'', base_repo_owner_login = ''elastic''\<rparr> twice_pull =
     [''@alice'', ''@bob'', ''@bob'', ''@elastic/perf''] \<and>
   mentions demo_issue \<lparr>base_ref = ''master'', base_repo_owner_login = ''elastic''\<rparr> twice_pull =
     ''@alice @bob @bob @elastic/perf'' \<and>
   \<not> distinct (mention_list demo_issue \<lparr>base_ref = ''master'', base_repo_owner_login = ''elastic''\<rparr>
       twice_pull)"
  by (simp add: mentions_def mention_list_def mention_sources_def author_def requestedUsers_def
      requestedTeams_def demo_issue_def twice_pull_def demo_pull_def)

text \<open>
  Claim C7, as the code has it.  The mention list holds one mention for every entry of the
  combined sources (author, requested reviewers, requested teams), in their order, so it
  is free of duplicates exactly when the sources are: a duplicate entry is mentioned as
  often as it occurs.
\<close>

theorem mention_list_keeps_every_source:
  "mention_list issue b pr = map ((@) ''@'') (mention_sources issue b pr) \<and>
   length (mention_list issue b pr) = length (mention_sources issue b pr) \<and>
   (distinct (mention_list issue b pr) \<longleftrightarrow> distinct (mention_sources issue b pr))"
proof -
  have "inj_on ((@) ''@'') (set (mention_sources issue b pr))"
    by (rule inj_onI) simp
  then show ?thesis
    by (simp add: mention_list_sources distinct_map)
qed

theorem mention_list_example:
  "mention_list demo_issue \<lparr>base_ref = ''master'', base_repo_owner_login = ''elastic''\<rparr> demo_pull =
     [''@alice'', ''@bob'', ''@elastic/perf''] \<and>
   distinct (mention_list demo_issue \<lparr>base_ref = ''master'', base_repo_owner_login = ''elastic''\<rparr>
     demo_pull)"
proof -
  have "mention_sources demo_issue \<lparr>base_ref = ''master'', base_repo_owner_login = ''elastic''\<rparr>
      demo_pull = [''alice'', ''bob'', ''elastic/perf'']"
    by (simp add: mention_sources_def demo_issue_def demo_pull_def)
  with mention_list_keeps_every_source
    [of demo_issue "\<lparr>base_ref = ''master'', base_repo_owner_login = ''elastic''\<rparr>" demo_pull]
  show ?thesis by simp
qed

subsection \<open>The rate limit\<close>

lemma rate_limit_signal_simps:
  "res_status (rate_limit_signal r) = 403" "res_remaining (rate_limit_signal r) = Some ''0''"
  "res_reset (rate_limit_signal r) = Some r"
  "res_text (rate_limit_signal r) = ''API rate limit exceeded''"
  "\<not> ok (rate_limit_signal r)"
  by (simp_all add: rate_limit_signal_def ok_def)

lemma throttled_sys_simps:
  "date_now throttled_sys = sim_clock"
  "set_timeout throttled_sys = (\<lambda>ms w. w\<lparr>sim_clock := sim_clock w + ms\<rparr>)"
  "fetch_pull throttled_sys = throttled 60 (serve_value 200 demo_pull)"
  "fetch_events throttled_sys = throttled 60 (serve_list [demo_labeled 3000000])"
  "fetch_created throttled_sys = throttled 60 (serve_value 201 ())"
  by (simp_all add: throttled_sys_def sim_sys_def)

lemma throttled_limited:
  "sim_script w = True # script \<Longrightarrow>
   throttled ahead fetch req w =
     (rate_limit_signal (sim_clock w div 1000 + ahead), w\<lparr>sim_script := script\<rparr>)"
  by (simp add: throttled_def)

lemma throttled_passed:
  "sim_script w = False # script \<Longrightarrow>
   throttled ahead fetch req w = fetch req (w\<lparr>sim_script := script\<rparr>)"
  by (simp add: throttled_def)

lemma throttled_free: "sim_script w = [] \<Longrightarrow> throttled ahead fetch req w = fetch req w"
  by (simp add: throttled_def)

text \<open>
  Claim C6 says that every operation of the client waits and retries on the rate-limit
  signal, so that the signal never comes out as an error.  \<open>paginate\<close> does (see below);
  \<open>getPull\<close> and \<open>createComment\<close> test \<open>res.ok\<close> only, and throw on the signal as on any
  other failure.  Here the service answers the request for pull request 42, and the
  request to comment on it, with the signal.
\<close>

theorem rate_limit_surfaces_from_single_requests:
  "getPull throttled_sys demo_cfg 42 throttled_start =
     (Inl (GetPullFailed 42 403 ''API rate limit exceeded''),
      fetched (pull_request demo_cfg 42) \<lparr>sim_clock = 6000000, sim_script = []\<rparr> throttled_start) \<and>
   createComment throttled_sys demo_cfg 42 ''Please backport.'' throttled_start =
     (Inl (PostCommentFailed 42 403 ''API rate limit exceeded''),
      fetched (comment_request demo_cfg 42 ''Please backport.'')
        \<lparr>sim_clock = 6000000, sim_script = []\<rparr> throttled_start)"
proof -
  have w: "world throttled_start = \<lparr>sim_clock = 6000000, sim_script = [True]\<rparr>"
    by (simp add: throttled_start_def)
  have "fetch_pull throttled_sys (pull_request demo_cfg 42) (world throttled_start) =
      (rate_limit_signal 6060, \<lparr>sim_clock = 6000000, sim_script = []\<rparr>)"
    by (simp add: throttled_sys_simps throttled_limited w)
  from getPull_failure [OF this] have "getPull throttled_sys demo_cfg 42 throttled_start =
     (Inl (GetPullFailed 42 403 ''API rate limit exceeded''),
      fetched (pull_request demo_cfg 42) \<lparr>sim_clock = 6000000, sim_script = []\<rparr> throttled_start)"
    by (simp add: rate_limit_signal_simps)
  moreover have "fetch_created throttled_sys (comment_request demo_cfg 42 ''Please backport.'')
      (world throttled_start) = (rate_limit_signal 6060, \<lparr>sim_clock = 6000000, sim_script = []\<rparr>)"
    by (simp add: throttled_sys_simps throttled_limited w)
  from createComment_failure [OF this]
  have "createComment throttled_sys demo_cfg 42 ''Please backport.'' throttled_start =
     (Inl (PostCommentFailed 42 403 ''API rate limit exceeded''),
      fetched (comment_request demo_cfg 42 ''Please backport.'')
        \<lparr>sim_clock = 6000000, sim_script = []\<rparr> throttled_start)"
    by (simp add: rate_limit_signal_simps)
  ultimately show ?thesis by simp
qed

text \<open>One round of the loop when the answer is the rate-limit signal.\<close>

lemma paginate_loop_rate_limited:
  assumes "fetch (page_request cfg path qp page) (world s) = (res, w)"
    and "res_status res = 403" and "res_remaining res = Some ''0''"
    and "reset = (case res_reset res of None \<Rightarrow> 0 | Some r \<Rightarrow> r) * 1000"
    and "waitMs = max 0 (reset - date_now sys w) + 1000"
    and "s2 = sleep sys waitMs (log (LogRateLimited waitMs) (fetched (page_request cfg path qp page) w s))"
  shows "paginate_loop sys fetch cfg path qp page results s =
      paginate_loop sys fetch cfg path (AList.update ''page'' (string_of_nat page) qp) page results s2 \<and>
    page_request cfg path (AList.update ''page'' (string_of_nat page) qp) page =
      page_request cfg path qp page \<and>
    trace s2 =
      trace s @ [Fetch (page_request cfg path qp page), Log (LogRateLimited waitMs), Sleep waitMs] \<and>
    world s2 = set_timeout sys waitMs w \<and>
    reset + 1000 \<le> date_now sys w + waitMs \<and>
    ((\<forall>ms u. date_now sys u + ms \<le> date_now sys (set_timeout sys ms u)) \<longrightarrow>
      reset + 1000 \<le> date_now sys (world s2))"
proof -
  have "paginate_loop sys fetch cfg path qp page results s =
      paginate_loop sys fetch cfg path (AList.update ''page'' (string_of_nat page) qp) page results s2"
    using assms(2-6)
    by (subst paginate_loop_unfold [where fetch = fetch and res = res, OF assms(1)])
      (simp add: Let_def)
  moreover have "trace s2 =
      trace s @ [Fetch (page_request cfg path qp page), Log (LogRateLimited waitMs), Sleep waitMs]"
    by (simp add: assms(6) trace_sleep trace_log trace_fetched)
  moreover have w2: "world s2 = set_timeout sys waitMs w"
    by (simp add: assms(6) sleep_def log_def fetched_def)
  moreover have le: "reset + 1000 \<le> date_now sys w + waitMs"
    by (simp add: assms(5))
  moreover have "(\<forall>ms u. date_now sys u + ms \<le> date_now sys (set_timeout sys ms u)) \<longrightarrow>
      reset + 1000 \<le> date_now sys (world s2)"
  proof
    assume "\<forall>ms u. date_now sys u + ms \<le> date_now sys (set_timeout sys ms u)"
    then have "date_now sys w + waitMs \<le> date_now sys (set_timeout sys waitMs w)" by blast
    with le show "reset + 1000 \<le> date_now sys (world s2)"
      by (simp add: w2)
  qed
  ultimately show ?thesis
    by (simp add: page_request_update)
qed

text \<open>
  The pages of an endpoint behind the rate limit, whatever its script: every signal costs
  a round, and the pages come back as without the limit.
\<close>

lemma paginate_loop_throttled:
  fixes sys :: "sim sys"
  assumes timer: "\<And>ms w. sim_script (set_timeout sys ms w) = sim_script w"
    and "page \<le> k" "\<forall>p. page \<le> p \<and> p < k \<longrightarrow> 100 \<le> length (pg p)" "length (pg k) < 100"
  shows "\<exists>s'. paginate_loop sys (throttled ahead (serve_pages (\<lambda>p. Array (pg p)))) cfg path qp
        page results s = Some (Inr (results @ concat (map pg [page..<Suc k])), s')"
  using assms(2-4)
proof (induction "sim_script (world s)" arbitrary: s page results qp)
  case Nil
  let ?fetch = "throttled ahead (serve_pages (\<lambda>p. Array (pg p)))"
  have "\<exists>s'. paginate_loop sys ?fetch cfg path qp page results s =
        Some (Inr (results @ concat (map pg [page..<Suc k])), s') \<and>
      trace s' = trace s @ map (\<lambda>p. Fetch (page_request cfg path qp p)) [page..<Suc k]"
  proof (rule paginate_loop_pages [where I = "\<lambda>w :: sim. sim_script w = []"])
    fix p and w :: sim
    assume "sim_script w = []"
    then show "ok (fst (?fetch (page_request cfg path qp p) w)) \<and>
        res_json (fst (?fetch (page_request cfg path qp p) w)) = Json (Array (pg p)) \<and>
        sim_script (snd (?fetch (page_request cfg path qp p) w)) = []"
      by (simp add: throttled_free serve_pages_page_request respond_simps)
  qed (use Nil in simp_all)
  then show ?case by blast
next
  case (Cons limited script)
  let ?fetch = "throttled ahead (serve_pages (\<lambda>p. Array (pg p)))"
  let ?req = "page_request cfg path qp page"
  let ?qp1 = "AList.update ''page'' (string_of_nat page) qp"
  let ?w = "world s\<lparr>sim_script := script\<rparr>"
  from Cons.hyps(2) have sc: "sim_script (world s) = limited # script" by simp
  show ?case
  proof (cases limited)
    case True
    let ?res = "rate_limit_signal (sim_clock (world s) div 1000 + ahead) :: 'a listing response"
    have f: "?fetch ?req (world s) = (?res, ?w)"
      using sc True by (simp add: throttled_limited)
    define waitMs where "waitMs = max 0 ((sim_clock (world s) div 1000 + ahead) * 1000 - date_now sys ?w) + 1000"
    define s2 where "s2 = sleep sys waitMs (log (LogRateLimited waitMs) (fetched ?req ?w s))"
    have step: "paginate_loop sys ?fetch cfg path qp page results s =
        paginate_loop sys ?fetch cfg path ?qp1 page results s2"
      by (subst paginate_loop_unfold [where fetch = ?fetch and res = ?res, OF f])
        (simp add: rate_limit_signal_simps Let_def s2_def waitMs_def)
    have "sim_script (world s2) = script"
      by (simp add: s2_def sleep_def log_def fetched_def timer)
    then have "script = sim_script (world s2)" by simp
    from Cons.hyps(1) [OF this Cons.prems, of ?qp1 results] step show ?thesis by simp
  next
    case False
    let ?res = "respond 200 [] (Json (Array (pg page)))"
    have f: "?fetch ?req (world s) = (?res, ?w)"
      using sc False by (simp add: throttled_passed serve_pages_page_request)
    let ?s1 = "fetched ?req ?w s"
    have sc1: "script = sim_script (world ?s1)"
      by (simp add: world_fetched)
    show ?thesis
    proof (cases "page = k")
      case True
      with Cons.prems(3) show ?thesis
        by (subst paginate_loop_unfold [where fetch = ?fetch and res = ?res, OF f])
          (simp add: respond_simps Let_def)
    next
      case ne: False
      with Cons.prems have lt: "page < k" and full: "100 \<le> length (pg page)" by auto
      have step: "paginate_loop sys ?fetch cfg path qp page results s =
          paginate_loop sys ?fetch cfg path ?qp1 (page + 1) (results @ pg page) ?s1"
        using full
        by (subst paginate_loop_unfold [where fetch = ?fetch and res = ?res, OF f])
          (auto simp add: respond_simps Let_def)
      have upt: "[page..<Suc k] = page # [page + 1..<Suc k]"
        using lt by (simp add: upt_conv_Cons)
      from Cons.hyps(1) [OF sc1, of "page + 1" ?qp1 "results @ pg page"] Cons.prems lt
      have "\<exists>s'. paginate_loop sys ?fetch cfg path ?qp1 (page + 1) (results @ pg page) ?s1 =
          Some (Inr ((results @ pg page) @ concat (map pg [page + 1..<Suc k])), s')"
        by simp
      with step upt show ?thesis by simp
    qed
  qed
qed

text \<open>
  Claim C5.  When the answer to the request for a page is the rate-limit signal,
  \<open>paginate\<close> throws nothing: it logs, sleeps for \<open>waitMs\<close> and goes round the loop again
  with the page counter and the results unchanged, so that the next request is the same
  request.  \<open>waitMs\<close> reaches from the clock to the reset time and 1000 milliseconds
  further; if a timer never fires early, the clock at the retry is at least the reset
  time plus 1000.  And however the rate-limit signals fall between the answers of a
  paged endpoint, \<open>paginate\<close> returns the items of its pages, each page once and in order.
\<close>

theorem paginate_waits_and_retries:
  "(fetch (page_request cfg path qp page) (world s) = (res, w) \<and>
      res_status res = 403 \<and> res_remaining res = Some ''0'' \<and>
      reset = (case res_reset res of None \<Rightarrow> 0 | Some r \<Rightarrow> r) * 1000 \<and>
      waitMs = max 0 (reset - date_now sys w) + 1000 \<and>
      s2 = sleep sys waitMs
             (log (LogRateLimited waitMs) (fetched (page_request cfg path qp page) w s)) \<longrightarrow>
    paginate_loop sys fetch cfg path qp page results s =
      paginate_loop sys fetch cfg path (AList.update ''page'' (string_of_nat page) qp) page results s2 \<and>
    page_request cfg path (AList.update ''page'' (string_of_nat page) qp) page =
      page_request cfg path qp page \<and>
    trace s2 =
      trace s @ [Fetch (page_request cfg path qp page), Log (LogRateLimited waitMs), Sleep waitMs] \<and>
    world s2 = set_timeout sys waitMs w \<and>
    reset + 1000 \<le> date_now sys w + waitMs \<and>
    ((\<forall>ms u. date_now sys u + ms \<le> date_now sys (set_timeout sys ms u)) \<longrightarrow>
      reset + 1000 \<le> date_now sys (world s2))) \<and>
   ((\<forall>ms u. sim_script (set_timeout sim ms u) = sim_script u) \<and>
      1 \<le> k \<and> (\<forall>p. 1 \<le> p \<and> p < k \<longrightarrow> 100 \<le> length (pg p)) \<and> length (pg k) < 100 \<longrightarrow>
    (\<exists>s'. paginate sim (throttled ahead (serve_pages (\<lambda>p. Array (pg p)))) cfg path params s0 =
       Some (Inr (concat (map pg [1..<Suc k])), s')))"
proof (rule conjI; rule impI)
  assume "fetch (page_request cfg path qp page) (world s) = (res, w) \<and>
      res_status res = 403 \<and> res_remaining res = Some ''0'' \<and>
      reset = (case res_reset res of None \<Rightarrow> 0 | Some r \<Rightarrow> r) * 1000 \<and>
      waitMs = max 0 (reset - date_now sys w) + 1000 \<and>
      s2 = sleep sys waitMs
             (log (LogRateLimited waitMs) (fetched (page_request cfg path qp page) w s))"
  then have h: "fetch (page_request cfg path qp page) (world s) = (res, w)"
    "res_status res = 403" "res_remaining res = Some ''0''"
    "reset = (case res_reset res of None \<Rightarrow> 0 | Some r \<Rightarrow> r) * 1000"
    "waitMs = max 0 (reset - date_now sys w) + 1000"
    "s2 = sleep sys waitMs (log (LogRateLimited waitMs) (fetched (page_request cfg path qp page) w s))"
    by simp_all
  show "paginate_loop sys fetch cfg path qp page results s =
      paginate_loop sys fetch cfg path (AList.update ''page'' (string_of_nat page) qp) page results s2 \<and>
    page_request cfg path (AList.update ''page'' (string_of_nat page) qp) page =
      page_request cfg path qp page \<and>
    trace s2 =
      trace s @ [Fetch (page_request cfg path qp page), Log (LogRateLimited waitMs), Sleep waitMs] \<and>
    world s2 = set_timeout sys waitMs w \<and>
    reset + 1000 \<le> date_now sys w + waitMs \<and>
    ((\<forall>ms u. date_now sys u + ms \<le> date_now sys (set_timeout sys ms u)) \<longrightarrow>
      reset + 1000 \<le> date_now sys (world s2))"
    by (rule paginate_loop_rate_limited [where fetch = fetch, OF h])
next
  assume "(\<forall>ms u. sim_script (set_timeout sim ms u) = sim_script u) \<and>
      1 \<le> k \<and> (\<forall>p. 1 \<le> p \<and> p < k \<longrightarrow> 100 \<le> length (pg p)) \<and> length (pg k) < 100"
  then have h: "\<And>ms u. sim_script (set_timeout sim ms u) = sim_script u"
    "1 \<le> k" "\<forall>p. 1 \<le> p \<and> p < k \<longrightarrow> 100 \<le> length (pg p)" "length (pg k) < 100"
    by simp_all
  from paginate_loop_throttled [of sim 1 k pg ahead cfg path "query_params params" "[]" s0, OF h]
  show "\<exists>s'. paginate sim (throttled ahead (serve_pages (\<lambda>p. Array (pg p)))) cfg path params s0 =
       Some (Inr (concat (map pg [1..<Suc k])), s')"
    by (simp add: paginate_def)
qed

text \<open>
  The events of pull request 42 behind one signal with the reset 60 seconds ahead: the
  page is requested, 61000 milliseconds pass, the page is requested again, and the events
  come back once.  And 250 items in pages of 100 behind a script of four signals come
  back as the same 250 items.
\<close>

theorem paginate_waits_and_retries_example:
  "(\<exists>s'. listIssueEvents throttled_sys demo_cfg 42 throttled_start =
       Some (Inr [demo_labeled 3000000], s') \<and>
     trace s' =
       [Fetch (page_request demo_cfg ''/repos/elastic/rally-tracks/issues/42/events''
                 (query_params []) 1),
        Log (LogRateLimited 61000),
        Sleep 61000,
        Fetch (page_request demo_cfg ''/repos/elastic/rally-tracks/issues/42/events''
                 (query_params []) 1)] \<and>
     world s' = \<lparr>sim_clock = 6061000, sim_script = []\<rparr>) \<and>
   (\<exists>s'. paginate throttled_sys (throttled 60 (serve_pages (\<lambda>p. Array (slice 100 [0..<250] p))))
       demo_cfg ''/numbers'' []
       \<lparr>world = \<lparr>sim_clock = 6000000,
                  sim_script = [True, False, True, True, False, False, True]\<rparr>,
        trace = []\<rparr> = Some (Inr [0..<250], s'))"
proof
  let ?path = "''/repos/elastic/rally-tracks/issues/42/events''"
  let ?qp = "query_params []"
  let ?qp1 = "AList.update ''page'' (string_of_nat 1) ?qp"
  let ?req = "page_request demo_cfg ?path ?qp 1"
  let ?fetch = "throttled 60 (serve_list [demo_labeled 3000000])"
  let ?sig = "rate_limit_signal 6060 :: ievent listing response"
  let ?w1 = "\<lparr>sim_clock = 6000000, sim_script = []\<rparr>"
  let ?w2 = "\<lparr>sim_clock = 6061000, sim_script = []\<rparr>"
  define s2 where "s2 = sleep throttled_sys 61000 (log (LogRateLimited 61000) (fetched ?req ?w1 throttled_start))"
  have p: "repo_path demo_cfg @ ''/issues/'' @ string_of_nat 42 @ ''/events'' = ?path"
    by (simp add: repo_path_def demo_cfg_def string_of_nat_42)
  have f1: "?fetch ?req (world throttled_start) = (?sig, ?w1)"
    by (simp add: throttled_limited throttled_start_def)
  have h4: "6060000 = (case res_reset ?sig of None \<Rightarrow> 0 | Some r \<Rightarrow> r) * 1000"
    by (simp add: rate_limit_signal_simps)
  have h5: "61000 = max 0 (6060000 - date_now throttled_sys ?w1) + 1000"
    by (simp add: throttled_sys_simps)
  have hyp: "?fetch ?req (world throttled_start) = (?sig, ?w1) \<and>
      res_status ?sig = 403 \<and> res_remaining ?sig = Some ''0'' \<and>
      6060000 = (case res_reset ?sig of None \<Rightarrow> 0 | Some r \<Rightarrow> r) * 1000 \<and>
      61000 = max 0 (6060000 - date_now throttled_sys ?w1) + 1000 \<and>
      s2 = sleep throttled_sys 61000 (log (LogRateLimited 61000) (fetched ?req ?w1 throttled_start))"
    using f1 h4 h5 s2_def by (simp add: rate_limit_signal_simps)
  note t = paginate_waits_and_retries [THEN conjunct1, rule_format, where fetch = ?fetch
      and sys = throttled_sys and results = "[]", OF hyp]
  have step: "paginate_loop throttled_sys ?fetch demo_cfg ?path ?qp 1 [] throttled_start =
      paginate_loop throttled_sys ?fetch demo_cfg ?path ?qp1 1 [] s2"
    and tr: "trace s2 = trace throttled_start @ [Fetch ?req, Log (LogRateLimited 61000), Sleep 61000]"
    and w2: "world s2 = set_timeout throttled_sys 61000 ?w1"
    using t by simp_all
  have w2': "world s2 = ?w2"
    by (simp add: w2 throttled_sys_simps)
  have f2: "?fetch (page_request demo_cfg ?path ?qp1 1) (world s2) =
      (respond 200 [] (Json (Array [demo_labeled 3000000])), world s2)"
    unfolding throttled_free [of "world s2", unfolded w2', simplified] w2'
    by (rule serve_list_first_page)
      (simp_all add: AList.update_conv' per_page_query_params)
  have "paginate_loop throttled_sys ?fetch demo_cfg ?path ?qp1 1 [] s2 =
      Some (Inr [demo_labeled 3000000], fetched (page_request demo_cfg ?path ?qp1 1) (world s2) s2)"
    by (subst paginate_loop_unfold [where fetch = ?fetch
          and res = "respond 200 [] (Json (Array [demo_labeled 3000000]))", OF f2])
      (simp add: respond_simps)
  with step have "listIssueEvents throttled_sys demo_cfg 42 throttled_start =
      Some (Inr [demo_labeled 3000000], fetched (page_request demo_cfg ?path ?qp1 1) (world s2) s2)"
    unfolding listIssueEvents_def paginate_def throttled_sys_simps p by simp
  moreover have "trace (fetched (page_request demo_cfg ?path ?qp1 1) (world s2) s2) =
      [Fetch ?req, Log (LogRateLimited 61000), Sleep 61000, Fetch ?req]"
    by (simp add: trace_fetched tr page_request_update throttled_start_def)
  moreover have "world (fetched (page_request demo_cfg ?path ?qp1 1) (world s2) s2) = ?w2"
    by (simp add: world_fetched w2')
  ultimately show "\<exists>s'. listIssueEvents throttled_sys demo_cfg 42 throttled_start =
       Some (Inr [demo_labeled 3000000], s') \<and>
     trace s' = [Fetch ?req, Log (LogRateLimited 61000), Sleep 61000, Fetch ?req] \<and>
     world s' = ?w2"
    by blast
next
  have hyp: "(\<forall>ms u. sim_script (set_timeout throttled_sys ms u) = sim_script u) \<and>
      (1::nat) \<le> 3 \<and> (\<forall>p. 1 \<le> p \<and> p < 3 \<longrightarrow> 100 \<le> length (slice 100 [0..<250] p)) \<and>
      length (slice 100 [0..<250] 3) < 100"
    by (auto simp add: throttled_sys_simps slice_def)
  have r: "concat (map (slice 100 [0..<250]) [1..<Suc 3]) = [0..<250]"
    by (simp only: concat_slices) simp
  note t = paginate_waits_and_retries [THEN conjunct2, rule_format, OF hyp]
  from t [unfolded r]
  show "\<exists>s'. paginate throttled_sys (throttled 60 (serve_pages (\<lambda>p. Array (slice 100 [0..<250] p))))
       demo_cfg ''/numbers'' []
       \<lparr>world = \<lparr>sim_clock = 6000000,
                  sim_script = [True, False, True, True, False, False, True]\<rparr>,
        trace = []\<rparr> = Some (Inr [0..<250], s')"
    by blast
qed

end
